theory Spec2Isabelle
  imports Main
begin

section \<open>JavaScript values used by the client\<close>

text \<open>
  A JavaScript string is a sequence of UTF-16 code units: \<open>length\<close> counts code units,
  \<open>String.fromCharCode\<close> can produce any unit, and the regular expressions of the source
  test single units. A string is therefore a list of code units, each a natural number;
  \<open>js\<close> embeds an ASCII literal. Characters that cannot be written inside a literal
  (backslash, single quote, tab, newline) are given by number.
\<close>

type_synonym jsstring = "nat list"

definition js :: "string \<Rightarrow> jsstring" where
  "js s = map of_char s"

definition QUOTE :: nat where
  "QUOTE = 39"

definition DQUOTE :: nat where
  "DQUOTE = 34"

text \<open>
  \<open>String.prototype.trim\<close> removes the ECMAScript white space and line terminator code
  units from both ends.
\<close>

definition is_js_space :: "nat \<Rightarrow> bool" where
  "is_js_space c =
     (c = 9 \<or> c = 10 \<or> c = 11 \<or> c = 12 \<or> c = 13 \<or> c = 32 \<or> c = 160 \<or> c = 5760
      \<or> (8192 \<le> c \<and> c \<le> 8202) \<or> c = 8232 \<or> c = 8233 \<or> c = 8239 \<or> c = 8287
      \<or> c = 12288 \<or> c = 65279)"

definition trim :: "jsstring \<Rightarrow> jsstring" where
  "trim s = rev (dropWhile is_js_space (rev (dropWhile is_js_space s)))"

definition startsWith :: "jsstring \<Rightarrow> jsstring \<Rightarrow> bool" where
  "startsWith s p = (take (length p) s = p)"

text \<open>\<open>s.split(sep)\<close> for a separator of one code unit; the empty string splits to \<open>[""]\<close>.\<close>

fun split_on :: "nat \<Rightarrow> jsstring \<Rightarrow> jsstring list" where
  "split_on sep [] = [[]]"
| "split_on sep (c # cs) =
     (if c = sep then [] # split_on sep cs
      else (case split_on sep cs of [] \<Rightarrow> [[c]] | p # ps \<Rightarrow> (c # p) # ps))"

text \<open>\<open>parts[i]\<close> is \<open>undefined\<close> beyond the end of the array.\<close>

definition at_index :: "'a list \<Rightarrow> nat \<Rightarrow> 'a option" where
  "at_index xs i = (if i < length xs then Some (xs ! i) else None)"

text \<open>\<open>lines.join(sep)\<close>.\<close>

fun join :: "jsstring \<Rightarrow> jsstring list \<Rightarrow> jsstring" where
  "join sep [] = []"
| "join sep [x] = x"
| "join sep (x # y # ys) = x @ sep @ join sep (y # ys)"

text \<open>
  A window index is a \<open>number\<close> holding an integer, as the listing of the multiplexer
  gives it; fractions and \<open>NaN\<close> are outside the model. A template literal prints an
  integer in decimal, with a minus sign when negative (for magnitudes below \<open>10^21\<close>).
\<close>

function digits_of :: "nat \<Rightarrow> jsstring" where
  "digits_of n = (if n < 10 then [48 + n] else digits_of (n div 10) @ [48 + n mod 10])"
  by pat_completeness auto
termination
  by (relation "measure (\<lambda>n. n)") auto

declare digits_of.simps [simp del]

definition number_to_string :: "int \<Rightarrow> jsstring" where
  "number_to_string i = (if i < 0 then 45 # digits_of (nat (- i)) else digits_of (nat i))"

subsection \<open>The built-in Map\<close>

text \<open>
  A JavaScript \<open>Map\<close> keeps its entries in insertion order; \<open>set\<close> on a present key
  replaces the value in place, on an absent key appends; \<open>delete\<close> removes the entry.
\<close>

type_synonym ('k, 'v) jsmap = "('k \<times> 'v) list"

definition map_get :: "('k, 'v) jsmap \<Rightarrow> 'k \<Rightarrow> 'v option" where
  "map_get m k = map_of m k"

fun map_set :: "'k \<Rightarrow> 'v \<Rightarrow> ('k, 'v) jsmap \<Rightarrow> ('k, 'v) jsmap" where
  "map_set k v [] = [(k, v)]"
| "map_set k v (p # ps) = (if fst p = k then (k, v) # ps else p # map_set k v ps)"

definition map_delete :: "'k \<Rightarrow> ('k, 'v) jsmap \<Rightarrow> ('k, 'v) jsmap" where
  "map_delete k m = filter (\<lambda>p. fst p \<noteq> k) m"

definition map_keys :: "('k, 'v) jsmap \<Rightarrow> 'k list" where
  "map_keys m = map fst m"

definition map_values :: "('k, 'v) jsmap \<Rightarrow> 'v list" where
  "map_values m = map snd m"

section \<open>The cache store (windowCache.ts)\<close>

record CacheWindow =
  cw_index :: int
  cw_id :: "jsstring option"

definition normalizeId :: "jsstring option \<Rightarrow> jsstring" where
  "normalizeId i = trim (case i of None \<Rightarrow> [] | Some s \<Rightarrow> s)"

definition buildWindowCacheKey ::
  "jsstring \<Rightarrow> jsstring \<Rightarrow> int \<Rightarrow> jsstring option \<Rightarrow> jsstring" where
  "buildWindowCacheKey scope sessionName idx i =
     (let normalized = normalizeId i;
          base = (if normalized \<noteq> [] then js ''id:'' @ normalized
                  else js ''idx:'' @ number_to_string idx)
      in scope @ js ''/'' @ sessionName @ js ''/'' @ base)"

text \<open>
  \<open>pruneWindowCache\<close> walks a snapshot of the keys and deletes from the live map.
\<close>

definition prune_keep :: "jsstring \<Rightarrow> jsstring \<Rightarrow> CacheWindow list \<Rightarrow> jsstring list" where
  "prune_keep scope sessionName wins =
     map (\<lambda>w. buildWindowCacheKey scope sessionName (cw_index w) (cw_id w)) wins"

definition pruneWindowCache ::
  "(jsstring, 'v) jsmap \<Rightarrow> jsstring \<Rightarrow> jsstring \<Rightarrow> CacheWindow list \<Rightarrow> (jsstring, 'v) jsmap" where
  "pruneWindowCache cache scope sessionName wins =
     (let prefix = scope @ js ''/'' @ sessionName @ js ''/'';
          keep = prune_keep scope sessionName wins
      in fold (\<lambda>key c. if startsWith key prefix \<and> key \<notin> set keep then map_delete key c else c)
           (map_keys cache) cache)"

section \<open>Command text and payload decoding (Runs.tsx)\<close>

text \<open>
  \<open>escapeArg\<close> tests the value against \<open>/^[A-Za-z0-9_@:\-]+$/\<close>: one or more units of
  the class and nothing else. Any other value, the empty string included, is wrapped in
  single quotes, each single quote inside replaced by \<open>'"'"'\<close>.
\<close>

definition is_safe_char :: "nat \<Rightarrow> bool" where
  "is_safe_char c =
     ((65 \<le> c \<and> c \<le> 90) \<or> (97 \<le> c \<and> c \<le> 122) \<or> (48 \<le> c \<and> c \<le> 57)
      \<or> c = 95 \<or> c = 64 \<or> c = 58 \<or> c = 45)"

definition escapeArg :: "jsstring \<Rightarrow> jsstring" where
  "escapeArg v =
     (if v \<noteq> [] \<and> list_all is_safe_char v then v
      else [QUOTE]
           @ concat (map (\<lambda>c. if c = QUOTE then [QUOTE, DQUOTE, QUOTE, DQUOTE, QUOTE] else [c]) v)
           @ [QUOTE])"

definition buildSendKeysControlCommand :: "jsstring \<Rightarrow> jsstring \<Rightarrow> bool \<Rightarrow> jsstring list" where
  "buildSendKeysControlCommand target keys withEnter =
     (let literal = js ''send-keys -t '' @ escapeArg target @ js '' -l '' @ escapeArg keys
      in if \<not> withEnter then [literal]
         else (let enter = js ''send-keys -t '' @ escapeArg target @ js '' Enter''
               in [literal, enter]))"

text \<open>
  \<open>decodeTmuxData\<close>: join with the empty separator, replace every match of
  \<open>/\\(\d{3})/g\<close> by \<open>String.fromCharCode(parseInt(digits, 8))\<close>, then replace every match of
  \<open>/\\\\/g\<close> by one backslash. A global replace scans from the left and resumes after each
  match. \<open>\d\<close> accepts the ten decimal digits. \<open>parseInt(s, 8)\<close> reads the longest prefix
  of octal digits and is \<open>NaN\<close> (here \<open>None\<close>) when that prefix is empty;
  \<open>String.fromCharCode\<close> turns \<open>NaN\<close> into unit 0 and reduces a number modulo \<open>2^16\<close>.
\<close>

definition is_digit :: "nat \<Rightarrow> bool" where
  "is_digit c = (48 \<le> c \<and> c \<le> 57)"

definition is_octal_digit :: "nat \<Rightarrow> bool" where
  "is_octal_digit c = (48 \<le> c \<and> c \<le> 55)"

definition parseInt8 :: "jsstring \<Rightarrow> nat option" where
  "parseInt8 ds =
     (let p = takeWhile is_octal_digit ds
      in if p = [] then None else Some (foldl (\<lambda>a d. 8 * a + (d - 48)) 0 p))"

definition fromCharCode :: "nat option \<Rightarrow> nat" where
  "fromCharCode v = (case v of None \<Rightarrow> 0 | Some n \<Rightarrow> n mod 65536)"

fun replace_octal :: "jsstring \<Rightarrow> jsstring" where
  "replace_octal (b # d1 # d2 # d3 # rest) =
     (if b = 92 \<and> is_digit d1 \<and> is_digit d2 \<and> is_digit d3
      then fromCharCode (parseInt8 [d1, d2, d3]) # replace_octal rest
      else b # replace_octal (d1 # d2 # d3 # rest))"
| "replace_octal (c # cs) = c # replace_octal cs"
| "replace_octal [] = []"

fun collapse_backslashes :: "jsstring \<Rightarrow> jsstring" where
  "collapse_backslashes (a # b # rest) =
     (if a = 92 \<and> b = 92 then 92 # collapse_backslashes rest
      else a # collapse_backslashes (b # rest))"
| "collapse_backslashes [c] = [c]"
| "collapse_backslashes [] = []"

definition decodeTmuxData :: "jsstring list \<Rightarrow> jsstring" where
  "decodeTmuxData chunks =
     (let joined = concat chunks;
          octalReplaced = replace_octal joined
      in collapse_backslashes octalReplaced)"

section \<open>The component state (Runs.tsx)\<close>

record HostProfile =
  host :: jsstring
  port :: "int option"
  user :: jsstring
  auth :: "jsstring option"
  key_path :: "jsstring option"
  key_pass :: "jsstring option"
  use_agent :: "bool option"
  password :: "jsstring option"

datatype Mode = LocalMode | RemoteMode HostProfile

record TmuxWindow =
  w_index :: int
  w_id :: jsstring
  w_name :: jsstring
  w_active :: bool
  w_panes :: int

text \<open>
  A \<open>ControlPending\<close> holds the \<open>resolve\<close> and \<open>reject\<close> functions of one promise. The
  promise is named by a number, which also stands for the identity of the entry object
  (\<open>indexOf\<close> compares objects). Each call of \<open>resolve\<close> or \<open>reject\<close> is recorded in order; the
  outcome of a promise is the first call made for it.
\<close>

record ControlPending =
  command :: jsstring
  promise :: nat
  data :: "jsstring list"

datatype settle = Resolve nat "jsstring list" | Reject nat jsstring



text \<open>Requests handed to the Executor, and refreshes started by notifications.\<close>

datatype request =
    StartControl jsstring HostProfile
  | StopControl jsstring HostProfile
  | ControlSend jsstring jsstring HostProfile

datatype refresh = LoadWindowsThenPane jsstring | PaneRefresh

text \<open>
  The refs and state variables of the component that the control channel and the session
  loader read or write. A state setter is taken to act at once. \<open>settled\<close>, \<open>promises\<close>,
  \<open>requests\<close> and \<open>refreshes\<close> record effects that leave the component: the calls of
  \<open>resolve\<close>/\<open>reject\<close>, the number of promises created, the Executor requests and the
  refreshes started.
\<close>

record runs =
  mode :: Mode
  msg :: jsstring
  activeSession :: "jsstring option"
  windows :: "TmuxWindow list"
  activeWin :: "int option"
  activeWinId :: "jsstring option"
  paneText :: jsstring
  pollPaused :: bool
  sessionLoading :: bool
  controlSessionKey :: "jsstring option"
  controlDisconnected :: bool
  nameCacheRef :: "(jsstring, jsstring) jsmap"
  paneCacheRef :: "(jsstring, jsstring) jsmap"
  windowsCacheRef :: "(jsstring, TmuxWindow list) jsmap"
  remoteSessionToken :: nat
  activeWinRef :: "int option"
  activeWinIdRef :: "jsstring option"
  controlRef :: "(jsstring \<times> HostProfile) option"
  controlSessionKeyRef :: "jsstring option"
  pending :: "ControlPending list"
  inflight :: "(jsstring, ControlPending) jsmap"
  controlStartedRef :: bool
  settled :: "settle list"
  promises :: nat
  requests :: "request list"
  refreshes :: "refresh list"

text \<open>The component as first rendered.\<close>

definition initial :: runs where
  "initial =
     \<lparr>mode = LocalMode, msg = [], activeSession = None, windows = [], activeWin = None,
      activeWinId = None, paneText = [], pollPaused = False, sessionLoading = False, controlSessionKey = None,
      controlDisconnected = False, nameCacheRef = [], paneCacheRef = [],
      windowsCacheRef = [], remoteSessionToken = 0, activeWinRef = None,
      activeWinIdRef = None, controlRef = None, controlSessionKeyRef = None, pending = [],
      inflight = [], controlStartedRef = False, settled = [], promises = 0, requests = [],
      refreshes = []\<rparr>"

definition cloneProfile :: "HostProfile \<Rightarrow> HostProfile" where
  "cloneProfile p = p\<lparr>password := password p, key_path := key_path p, key_pass := key_pass p\<rparr>"

definition port_or_22 :: "HostProfile \<Rightarrow> int" where
  "port_or_22 p = (case port p of None \<Rightarrow> 22 | Some n \<Rightarrow> n)"

definition scopeKeyForProfile :: "HostProfile option \<Rightarrow> jsstring" where
  "scopeKeyForProfile profile =
     (case profile of
        None \<Rightarrow> js ''local''
      | Some p \<Rightarrow> js ''remote:'' @ user p @ js ''@'' @ host p @ js '':''
                  @ number_to_string (port_or_22 p))"

definition sessionCacheKeyForScope :: "jsstring \<Rightarrow> jsstring \<Rightarrow> jsstring" where
  "sessionCacheKeyForScope scope session = scope @ js ''/'' @ session"

definition controlSessionKeyFor :: "HostProfile \<Rightarrow> jsstring \<Rightarrow> jsstring" where
  "controlSessionKeyFor p session =
     user p @ js ''@'' @ host p @ js '':'' @ number_to_string (port_or_22 p) @ js ''#'' @ session"

section \<open>The control channel client\<close>

text \<open>
  \<open>resetControlQueues\<close> rejects the queued entries from the oldest on, then the in-flight
  entries in the order of the map, and empties both.
\<close>

definition resetControlQueues :: "jsstring option \<Rightarrow> runs \<Rightarrow> runs" where
  "resetControlQueues reason st =
     (let error = (case reason of
                     None \<Rightarrow> js ''control session reset''
                   | Some r \<Rightarrow> if r \<noteq> [] then r else js ''control session reset'')
      in st\<lparr>pending := [], inflight := [],
            settled := settled st
              @ map (\<lambda>e. Reject (promise e) error) (pending st)
              @ map (\<lambda>e. Reject (promise e) error) (map_values (inflight st))\<rparr>)"

definition startControlSession :: "jsstring \<Rightarrow> HostProfile \<Rightarrow> runs \<Rightarrow> runs" where
  "startControlSession sessionName profile st =
     (let cloned = cloneProfile profile;
          key = controlSessionKeyFor cloned sessionName;
          st1 = st\<lparr>controlRef := Some (sessionName, cloned), controlSessionKeyRef := Some key,
                   controlSessionKey := Some key, controlDisconnected := False,
                   controlStartedRef := False\<rparr>;
          st2 = resetControlQueues None st1
      in st2\<lparr>requests := requests st2 @ [StartControl sessionName cloned]\<rparr>)"

text \<open>The rejection handler of the start request.\<close>

definition startControl_failed :: "jsstring \<Rightarrow> runs \<Rightarrow> runs" where
  "startControl_failed err st =
     st\<lparr>controlDisconnected := True,
        msg := [9888, 65039] @ js '' Control session start failed: '' @ err\<rparr>"

definition stopControlSession :: "runs \<Rightarrow> runs" where
  "stopControlSession st =
     (case controlRef st of
        None \<Rightarrow> st
      | Some (session, profile) \<Rightarrow>
          (let st1 = resetControlQueues None st
           in st1\<lparr>requests := requests st1 @ [StopControl session profile],
                  controlSessionKey := None, controlSessionKeyRef := None,
                  controlDisconnected := False, controlStartedRef := False\<rparr>))"

text \<open>
  \<open>handleControlLine\<close>, branch by branch. A line that starts with \<open>%%begin\<close> or \<open>%%end\<close>
  and a space splits into at least two parts, so \<open>parts[1]\<close> is defined and the \<open>None\<close>
  branches of the tag are never taken (\<open>begin_has_tag\<close>, \<open>end_has_tag\<close> below). Warnings and
  errors written to the console are not part of the state.
\<close>

definition handleControlLine :: "jsstring \<Rightarrow> runs \<Rightarrow> runs" where
  "handleControlLine line st =
     (if startsWith line (js ''%%begin '') then
        (case at_index (split_on 32 line) 1 of
           None \<Rightarrow> st
         | Some tag \<Rightarrow>
             (case pending st of
                [] \<Rightarrow> st
              | entry # rest \<Rightarrow> st\<lparr>pending := rest, inflight := map_set tag entry (inflight st)\<rparr>))
      else if startsWith line (js ''%%data '') then
        (let rest = drop 7 line
         in if 32 \<notin> set rest then st
            else (let tag = takeWhile (\<lambda>c. c \<noteq> 32) rest;
                      payload = tl (dropWhile (\<lambda>c. c \<noteq> 32) rest)
                  in case map_get (inflight st) tag of
                       None \<Rightarrow> st
                     | Some entry \<Rightarrow>
                         st\<lparr>inflight :=
                              map_set tag (entry\<lparr>data := data entry @ [payload]\<rparr>) (inflight st)\<rparr>))
      else if startsWith line (js ''%%end '') then
        (case at_index (split_on 32 line) 1 of
           None \<Rightarrow> st
         | Some tag \<Rightarrow>
             (let status = (case at_index (split_on 32 line) 2 of None \<Rightarrow> js ''0'' | Some s \<Rightarrow> s)
              in case map_get (inflight st) tag of
                   None \<Rightarrow> st
                 | Some entry \<Rightarrow>
                     (let st1 = st\<lparr>inflight := map_delete tag (inflight st)\<rparr>
                      in if status = js ''0''
                         then st1\<lparr>settled := settled st1 @ [Resolve (promise entry) (data entry)]\<rparr>
                         else st1\<lparr>settled := settled st1
                                @ [Reject (promise entry)
                                     (let joined = join [10] (data entry)
                                      in if joined \<noteq> [] then joined
                                         else js ''tmux error '' @ status)]\<rparr>)))
      else if startsWith line (js ''%window-'') \<or> startsWith line (js ''%session-'') then
        (case controlRef st of
           None \<Rightarrow> st
         | Some (session, profile) \<Rightarrow> st\<lparr>refreshes := refreshes st @ [LoadWindowsThenPane session]\<rparr>)
      else if startsWith line (js ''%output'') then
        (case mode st of
           RemoteMode p \<Rightarrow> st\<lparr>refreshes := refreshes st @ [PaneRefresh]\<rparr>
         | LocalMode \<Rightarrow> st)
      else st)"

text \<open>
  \<open>sendControlCommand\<close> creates the promise, queues the entry and only then calls the
  Executor; the model returns the number of the promise with the new state. Nothing is
  attached to the success of the send, so a send that succeeds leaves the state as it is.
  \<open>controlSend_failed\<close> is the rejection handler of the send, for the entry of the given
  promise and the error message.
\<close>

definition sendControlCommand :: "jsstring \<Rightarrow> runs \<Rightarrow> nat \<times> runs" where
  "sendControlCommand cmd st =
     (let p = promises st
      in case controlRef st of
           None \<Rightarrow>
             (p, st\<lparr>promises := p + 1,
                     settled := settled st @ [Reject p (js ''control session inactive'')]\<rparr>)
         | Some (session, profile) \<Rightarrow>
             (if controlSessionKeyRef st = None \<or> controlSessionKeyRef st = Some []
              then (p, st\<lparr>promises := p + 1,
                           settled := settled st @ [Reject p (js ''control session inactive'')]\<rparr>)
              else (p, st\<lparr>promises := p + 1,
                           pending := pending st @ [\<lparr>command = cmd, promise = p, data = []\<rparr>],
                           requests := requests st @ [ControlSend session cmd profile]\<rparr>)))"

definition controlSend_resolved :: "nat \<Rightarrow> runs \<Rightarrow> runs" where
  "controlSend_resolved p st = st"

fun splice_entry :: "nat \<Rightarrow> ControlPending list \<Rightarrow> ControlPending list" where
  "splice_entry p [] = []"
| "splice_entry p (e # es) = (if promise e = p then es else e # splice_entry p es)"

definition controlSend_failed :: "nat \<Rightarrow> jsstring \<Rightarrow> runs \<Rightarrow> runs" where
  "controlSend_failed p err st =
     st\<lparr>pending := splice_entry p (pending st),
        controlDisconnected := True,
        msg := [9888, 65039] @ js '' Control command failed: '' @ err,
        settled := settled st @ [Reject p err]\<rparr>"

definition controlReady :: "runs \<Rightarrow> bool" where
  "controlReady st =
     ((case mode st of RemoteMode p \<Rightarrow> True | LocalMode \<Rightarrow> False)
      \<and> \<not> controlDisconnected st
      \<and> controlRef st \<noteq> None
      \<and> controlSessionKeyRef st \<noteq> None
      \<and> controlStartedRef st)"

text \<open>
  The listener of \<open>tmux-control-event\<close>, taken as registered: the source registers it in
  an effect once the mode is remote and a session key is set.
\<close>

record ControlEventPayload =
  ev_key :: jsstring
  ev_kind :: jsstring
  ev_line :: "jsstring option"

definition control_event :: "ControlEventPayload \<Rightarrow> runs \<Rightarrow> runs" where
  "control_event payload st =
     (if Some (ev_key payload) \<noteq> controlSessionKeyRef st then st
      else if ev_kind payload = js ''line'' then
        (case ev_line payload of
           None \<Rightarrow> st
         | Some l \<Rightarrow> if l \<noteq> [] then handleControlLine l st else st)
      else if ev_kind payload = js ''started'' then
        (resetControlQueues None st)\<lparr>controlDisconnected := False\<rparr>
      else if ev_kind payload = js ''stopped'' \<or> ev_kind payload = js ''closed'' then
        (resetControlQueues (Some (js ''control session stopped'')) st)
          \<lparr>controlDisconnected := True, controlSessionKey := None, controlSessionKeyRef := None,
           msg := [9888, 65039] @ js '' Control session lost. Click Reconnect.''\<rparr>
      else st)"

section \<open>Window-list reconciliation\<close>

text \<open>
  \<open>cacheScope\<close> and \<open>cacheKeyFor\<close> read the mode of the component. \<open>normalizeWindows\<close>
  walks the raw rows once, keeping one row per key in a \<open>Map\<close> and writing each non-empty
  trimmed name to the name cache; \<open>normalize_step\<close> is the body of its loop. The result is
  the values of the map, sorted by index; \<open>Array.prototype.sort\<close> is stable, as insertion
  sort is.
\<close>

definition cacheScope :: "Mode \<Rightarrow> HostProfile option \<Rightarrow> jsstring" where
  "cacheScope m profileOverride =
     (case profileOverride of
        Some p \<Rightarrow> scopeKeyForProfile (Some p)
      | None \<Rightarrow> (case m of LocalMode \<Rightarrow> js ''local''
                 | RemoteMode p \<Rightarrow> scopeKeyForProfile (Some p)))"

definition cacheKeyFor :: "Mode \<Rightarrow> jsstring \<Rightarrow> TmuxWindow \<Rightarrow> HostProfile option \<Rightarrow> jsstring" where
  "cacheKeyFor m sessionName w profileOverride =
     buildWindowCacheKey (cacheScope m profileOverride) sessionName (w_index w) (Some (w_id w))"

definition normalize_step ::
  "Mode \<Rightarrow> jsstring \<Rightarrow> TmuxWindow
   \<Rightarrow> (jsstring, TmuxWindow) jsmap \<times> (jsstring, jsstring) jsmap
   \<Rightarrow> (jsstring, TmuxWindow) jsmap \<times> (jsstring, jsstring) jsmap" where
  "normalize_step m sessionName w acc =
     (let byKey = fst acc;
          names = snd acc;
          trimmedId = trim (w_id w);
          key = (if trimmedId \<noteq> [] then js ''id:'' @ trimmedId
                 else js ''idx:'' @ number_to_string (w_index w));
          cacheKey = cacheKeyFor m sessionName w None;
          trimmed = trim (w_name w);
          names1 = (if trimmed \<noteq> [] then map_set cacheKey trimmed names else names);
          trimmedName =
            (if trimmed \<noteq> [] then trimmed
             else (case map_get names cacheKey of
                     None \<Rightarrow> trimmed
                   | Some cached \<Rightarrow> if cached \<noteq> [] then cached else trimmed));
          candidate = w\<lparr>w_id := (if trimmedId \<noteq> [] then trimmedId else w_id w),
                        w_name := trimmedName\<rparr>
      in case map_get byKey key of
           None \<Rightarrow> (map_set key candidate byKey, names1)
         | Some existing \<Rightarrow>
             (let existingName = trim (w_name existing);
                  candidateName = trimmedName;
                  useCandidate =
                    (length candidateName > length existingName
                     \<or> (length candidateName = length existingName
                         \<and> w_active candidate \<and> \<not> w_active existing))
              in if useCandidate then (map_set key candidate byKey, names1)
                 else (byKey, names1)))"

definition normalizeWindows :: "jsstring \<Rightarrow> TmuxWindow list \<Rightarrow> runs \<Rightarrow> TmuxWindow list \<times> runs" where
  "normalizeWindows sessionName ws st =
     (let acc = fold (normalize_step (mode st) sessionName) ws ([], nameCacheRef st)
      in (sort_key w_index (map_values (fst acc)), st\<lparr>nameCacheRef := snd acc\<rparr>))"

section \<open>The session loader\<close>

text \<open>
  \<open>selectSession\<close> does its synchronous part, takes the next value of
  \<open>remoteSessionToken\<close> and starts the background block; the model returns the new state
  and, when the block was started, its token and profile. The block awaits \<open>getWindows\<close>
  and then, when there is a preferred window, \<open>getPane\<close>. Each await ends with a value
  (\<open>Inr\<close>) or an error message (\<open>Inl\<close>), handed to the continuation together with the
  state of the component at that moment: \<open>selectSession_windows\<close> runs from the first
  await to the second (returning the windows and the preferred window it waits for) or to
  the end, \<open>selectSession_pane\<close> from the second await to the end. \<open>selectSession_catch\<close>
  and \<open>selectSession_finally\<close> are the \<open>catch\<close> and \<open>finally\<close> blocks, and
  \<open>selectSession_tail\<close> the statements after the \<open>if (preferred)\<close> block. While
  \<open>controlReady\<close> is false, \<open>getWindows\<close> and \<open>getPane\<close> are Executor calls that change
  nothing in the component.
\<close>

definition preferred_window :: "TmuxWindow list \<Rightarrow> TmuxWindow option" where
  "preferred_window ws =
     (case find w_active ws of
        Some w \<Rightarrow> Some w
      | None \<Rightarrow> (case ws of [] \<Rightarrow> None | w # rest \<Rightarrow> Some w))"

definition as_cache_window :: "TmuxWindow \<Rightarrow> CacheWindow" where
  "as_cache_window w = \<lparr>cw_index = w_index w, cw_id = Some (w_id w)\<rparr>"

definition or_blank :: "jsstring \<Rightarrow> jsstring" where
  "or_blank pane = (if pane \<noteq> [] then pane else js '' '')"

definition selectSession_finally :: "nat \<Rightarrow> runs \<Rightarrow> runs" where
  "selectSession_finally token st =
     (if token = remoteSessionToken st then st\<lparr>pollPaused := False, sessionLoading := False\<rparr>
      else st)"

definition selectSession_catch :: "nat \<Rightarrow> jsstring \<Rightarrow> jsstring \<Rightarrow> runs \<Rightarrow> runs" where
  "selectSession_catch token sessionName raw st =
     selectSession_finally token
       (if token \<noteq> remoteSessionToken st then st
        else st\<lparr>msg := [9888, 65039] @ js '' Failed to load '' @ [34] @ sessionName @ [34]
                       @ js '': '' @ raw,
                paneText := js ''<< '' @ raw @ js '' >>''\<rparr>)"

definition selectSession_tail ::
  "nat \<Rightarrow> jsstring \<Rightarrow> HostProfile \<Rightarrow> TmuxWindow list \<Rightarrow> TmuxWindow option \<Rightarrow> jsstring
   \<Rightarrow> runs \<Rightarrow> runs" where
  "selectSession_tail token sessionName profile normalized preferred pane st =
     selectSession_finally token
       (if token \<noteq> remoteSessionToken st then st
        else
          (let scope = cacheScope (mode st) (Some profile);
               st1 = st\<lparr>windows := normalized,
                        paneCacheRef := pruneWindowCache (paneCacheRef st) scope sessionName
                                          (map as_cache_window normalized)\<rparr>;
               st2 = (case preferred of
                        Some p \<Rightarrow>
                          st1\<lparr>activeWin := Some (w_index p), activeWinId := Some (w_id p),
                              activeWinRef := Some (w_index p), activeWinIdRef := Some (w_id p),
                              paneText := or_blank pane\<rparr>
                      | None \<Rightarrow>
                          st1\<lparr>activeWin := None, activeWinId := None, activeWinRef := None,
                              activeWinIdRef := None, paneText := js '' ''\<rparr>)
           in if normalized = []
              then st2\<lparr>msg := [9888, 65039] @ js '' No windows reported for '' @ [34]
                              @ sessionName @ [34]
                              @ js ''. If this is unexpected, click Refresh.''\<rparr>
              else st2\<lparr>msg := []\<rparr>))"

definition selectSession_windows ::
  "nat \<Rightarrow> jsstring \<Rightarrow> HostProfile \<Rightarrow> jsstring + TmuxWindow list \<Rightarrow> runs
   \<Rightarrow> runs \<times> (TmuxWindow list \<times> TmuxWindow) option" where
  "selectSession_windows token sessionName profile result st =
     (case result of
        Inl raw \<Rightarrow> (selectSession_catch token sessionName raw st, None)
      | Inr rawWindows \<Rightarrow>
          if token \<noteq> remoteSessionToken st then (selectSession_finally token st, None)
          else
            (let normalized = fst (normalizeWindows sessionName rawWindows st);
                 st1 = snd (normalizeWindows sessionName rawWindows st);
                 cacheKey = sessionCacheKeyForScope (cacheScope (mode st) (Some profile))
                              sessionName;
                 st2 = st1\<lparr>windowsCacheRef := map_set cacheKey normalized (windowsCacheRef st1)\<rparr>
             in case preferred_window normalized of
                  None \<Rightarrow>
                    (selectSession_tail token sessionName profile normalized None [] st2, None)
                | Some p \<Rightarrow>
                    ((case map_get (paneCacheRef st2)
                             (cacheKeyFor (mode st2) sessionName p (Some profile)) of
                        None \<Rightarrow> st2
                      | Some cached \<Rightarrow> if cached \<noteq> [] then st2\<lparr>paneText := cached\<rparr> else st2),
                     Some (normalized, p))))"

definition selectSession_pane ::
  "nat \<Rightarrow> jsstring \<Rightarrow> HostProfile \<Rightarrow> TmuxWindow list \<Rightarrow> TmuxWindow \<Rightarrow> jsstring + jsstring
   \<Rightarrow> runs \<Rightarrow> runs" where
  "selectSession_pane token sessionName profile normalized preferred result st =
     (case result of
        Inl raw \<Rightarrow> selectSession_catch token sessionName raw st
      | Inr pane \<Rightarrow>
          selectSession_tail token sessionName profile normalized (Some preferred) pane
            (st\<lparr>paneCacheRef :=
                  map_set (cacheKeyFor (mode st) sessionName preferred (Some profile))
                    (or_blank pane) (paneCacheRef st)\<rparr>))"


definition selectSession ::
  "jsstring \<Rightarrow> HostProfile option \<Rightarrow> runs \<Rightarrow> runs \<times> (nat \<times> HostProfile) option" where
  "selectSession sessionName profileOverride st =
     (if sessionName = [] then (st, None)
      else if mode st = LocalMode \<and> profileOverride = None
      then (st\<lparr>activeSession := Some sessionName\<rparr>, None)
      else if Some sessionName = activeSession st \<and> profileOverride = None then (st, None)
      else
        (let st1 = st\<lparr>activeSession := Some sessionName\<rparr>
         in case (case profileOverride of
                    Some p \<Rightarrow> Some p
                  | None \<Rightarrow> (case mode st1 of RemoteMode p \<Rightarrow> Some p | LocalMode \<Rightarrow> None)) of
              None \<Rightarrow> (st1, None)
            | Some profile \<Rightarrow>
                (let st2 = (case mode st1 of
                              LocalMode \<Rightarrow> st1
                            | RemoteMode p \<Rightarrow>
                                if (case controlRef st1 of
                                      None \<Rightarrow> True
                                    | Some c \<Rightarrow> fst c \<noteq> sessionName)
                                then startControlSession sessionName profile
                                       (stopControlSession st1)
                                else st1);
                     st3 = st2\<lparr>sessionLoading := True,
                              msg := js ''Loading '' @ sessionName @ [8230],
                              pollPaused := True\<rparr>;
                     cacheKey = sessionCacheKeyForScope (cacheScope (mode st3) (Some profile))
                                  sessionName;
                     st4 = st3\<lparr>activeWin := None, activeWinId := None\<rparr>;
                     st5 = (case map_get (windowsCacheRef st4) cacheKey of
                              None \<Rightarrow> st4\<lparr>windows := [], paneText := js ''Loading'' @ [8230]\<rparr>
                            | Some [] \<Rightarrow> st4\<lparr>windows := [], paneText := js ''Loading'' @ [8230]\<rparr>
                            | Some (w # ws) \<Rightarrow>
                                (case preferred_window (w # ws) of
                                   None \<Rightarrow> st4\<lparr>windows := w # ws,
                                              paneText := js ''Loading'' @ [8230]\<rparr>
                                 | Some p \<Rightarrow>
                                     st4\<lparr>windows := w # ws,
                                         activeWin := Some (w_index p),
                                         activeWinId := Some (w_id p),
                                         activeWinRef := Some (w_index p),
                                         activeWinIdRef := Some (w_id p),
                                         paneText :=
                                           (case map_get (paneCacheRef st4)
                                                   (cacheKeyFor (mode st4) sessionName p
                                                      (Some profile)) of
                                              None \<Rightarrow> js ''Loading'' @ [8230]
                                            | Some cachedPane \<Rightarrow> cachedPane)\<rparr>));
                     token = remoteSessionToken st5 + 1
                 in (st5\<lparr>remoteSessionToken := token\<rparr>, Some (token, profile)))))"

section \<open>Events of the control channel\<close>

text \<open>
  What can happen to the client, one event at a time: a start or stop of the control
  session, the failure of the start request, a command issued, the completion or the
  failure of the send of the entry of a promise, and an event of the line feed.
\<close>


datatype event =
    Start jsstring HostProfile
  | StartFailed jsstring
  | Stop
  | Send jsstring
  | SendResolved nat
  | SendFailed nat jsstring
  | ControlEvent ControlEventPayload

fun step :: "event \<Rightarrow> runs \<Rightarrow> runs" where
  "step (Start s p) st = startControlSession s p st"
| "step (StartFailed err) st = startControl_failed err st"
| "step Stop st = stopControlSession st"
| "step (Send cmd) st = snd (sendControlCommand cmd st)"
| "step (SendResolved p) st = controlSend_resolved p st"
| "step (SendFailed p err) st = controlSend_failed p err st"
| "step (ControlEvent payload) st = control_event payload st"

definition run :: "event list \<Rightarrow> runs \<Rightarrow> runs" where
  "run es st = fold step es st"

fun is_SendResolved :: "event \<Rightarrow> bool" where
  "is_SendResolved (SendResolved p) = True"
| "is_SendResolved _ = False"

definition line_event :: "jsstring \<Rightarrow> jsstring \<Rightarrow> event" where
  "line_event k l = ControlEvent \<lparr>ev_key = k, ev_kind = js ''line'', ev_line = Some l\<rparr>"

text \<open>
  Example states: a remote profile, the component in remote mode, the component after the
  control session of \<open>arc\<close> was started, and states reached from there by commands and
  lines of the feed.
\<close>

definition demo_profile :: HostProfile where
  "demo_profile = \<lparr>host = js ''node'', port = None, user = js ''ops'', auth = None,
     key_path = None, key_pass = None, use_agent = None, password = None\<rparr>"

definition demo_remote :: runs where
  "demo_remote = initial\<lparr>mode := RemoteMode demo_profile\<rparr>"

definition demo_ready :: runs where
  "demo_ready = startControlSession (js ''arc'') demo_profile demo_remote"

definition demo_key :: jsstring where
  "demo_key = js ''ops@node:22#arc''"

definition demo_failed :: runs where
  "demo_failed =
     run [Send (js ''list-windows''),
          line_event demo_key (js ''%%begin 7 1700 1''),
          line_event demo_key (js ''%%data 7 no session'')] demo_ready"

definition demo_blank :: runs where
  "demo_blank =
     run [Send (js ''list-windows''),
          line_event demo_key (js ''%%begin 7 1700 1''),
          line_event demo_key (js ''%%data 7 '')] demo_ready"



section \<open>The operations as the specification words them\<close>

text \<open>
  The specification's wording of argument quoting: a value made only of units of the class
  is emitted as it is, any other value is single-quoted.
\<close>

fun quote_body :: "jsstring \<Rightarrow> jsstring" where
  "quote_body [] = []"
| "quote_body (c # cs) =
     (if c = 39 then 39 # 34 # 39 # 34 # 39 # quote_body cs else c # quote_body cs)"

definition emit_spec :: "jsstring \<Rightarrow> jsstring" where
  "emit_spec v = (if list_all is_safe_char v then v else 39 # quote_body v @ [39])"

definition sendKeys_spec :: "jsstring \<Rightarrow> jsstring \<Rightarrow> bool \<Rightarrow> jsstring list" where
  "sendKeys_spec target keys withEnter =
     (if withEnter
      then [js ''send-keys -t '' @ emit_spec target @ js '' -l '' @ emit_spec keys,
            js ''send-keys -t '' @ emit_spec target @ js '' Enter'']
      else [js ''send-keys -t '' @ emit_spec target @ js '' -l '' @ emit_spec keys])"

text \<open>The same with the empty value quoted, as \<open>''\<close>.\<close>

definition emit_nonempty :: "jsstring \<Rightarrow> jsstring" where
  "emit_nonempty v =
     (if v \<noteq> [] \<and> list_all is_safe_char v then v else 39 # quote_body v @ [39])"

text \<open>
  The specification's wording of payload decoding: a backslash followed by three octal
  digits is an escape and stands for the unit with that octal value; afterwards each
  doubled backslash becomes one.
\<close>

definition octal_value :: "nat \<Rightarrow> nat \<Rightarrow> nat \<Rightarrow> nat" where
  "octal_value d1 d2 d3 = 64 * (d1 - 48) + 8 * (d2 - 48) + (d3 - 48)"

fun octal_escapes_spec :: "jsstring \<Rightarrow> jsstring" where
  "octal_escapes_spec (b # d1 # d2 # d3 # rest) =
     (if b = 92 \<and> is_octal_digit d1 \<and> is_octal_digit d2 \<and> is_octal_digit d3
      then octal_value d1 d2 d3 # octal_escapes_spec rest
      else b # octal_escapes_spec (d1 # d2 # d3 # rest))"
| "octal_escapes_spec (c # cs) = c # octal_escapes_spec cs"
| "octal_escapes_spec [] = []"

definition decode_spec :: "jsstring list \<Rightarrow> jsstring" where
  "decode_spec chunks = collapse_backslashes (octal_escapes_spec (concat chunks))"

text \<open>
  What \<open>parseInt(digits, 8)\<close> and \<open>String.fromCharCode\<close> make of three decimal digits in
  the source, written out by cases; it is the octal value when all three are octal digits.
\<close>

definition escape_unit :: "nat \<Rightarrow> nat \<Rightarrow> nat \<Rightarrow> nat" where
  "escape_unit d1 d2 d3 =
     (if \<not> is_octal_digit d1 then 0
      else if \<not> is_octal_digit d2 then d1 - 48
      else if \<not> is_octal_digit d3 then 8 * (d1 - 48) + (d2 - 48)
      else octal_value d1 d2 d3)"

fun decimal_escapes :: "jsstring \<Rightarrow> jsstring" where
  "decimal_escapes (b # d1 # d2 # d3 # rest) =
     (if b = 92 \<and> is_digit d1 \<and> is_digit d2 \<and> is_digit d3
      then escape_unit d1 d2 d3 # decimal_escapes rest
      else b # decimal_escapes (d1 # d2 # d3 # rest))"
| "decimal_escapes (c # cs) = c # decimal_escapes cs"
| "decimal_escapes [] = []"

text \<open>
  The reconciliation as the specification words it: the identity key of a row, the name a
  row takes given the name cache, the row as kept (its id trimmed, its name resolved), the
  name cache after a row was read, the rows of a list as resolved one after the other, and
  which of two rows with one identity key is kept.
\<close>

definition identity_key :: "TmuxWindow \<Rightarrow> jsstring" where
  "identity_key w =
     (if trim (w_id w) \<noteq> [] then js ''id:'' @ trim (w_id w)
      else js ''idx:'' @ number_to_string (w_index w))"

definition resolved_name :: "(jsstring, jsstring) jsmap \<Rightarrow> jsstring \<Rightarrow> TmuxWindow \<Rightarrow> jsstring" where
  "resolved_name names cacheKey w =
     (if trim (w_name w) \<noteq> [] then trim (w_name w)
      else (case map_get names cacheKey of
              Some cached \<Rightarrow> cached
            | None \<Rightarrow> []))"

definition resolved_row :: "(jsstring, jsstring) jsmap \<Rightarrow> jsstring \<Rightarrow> TmuxWindow \<Rightarrow> TmuxWindow" where
  "resolved_row names cacheKey w =
     w\<lparr>w_id := (if trim (w_id w) \<noteq> [] then trim (w_id w) else w_id w),
       w_name := resolved_name names cacheKey w\<rparr>"

definition names_after :: "(jsstring, jsstring) jsmap \<Rightarrow> jsstring \<Rightarrow> TmuxWindow \<Rightarrow> (jsstring, jsstring) jsmap" where
  "names_after names cacheKey w =
     (if trim (w_name w) \<noteq> [] then map_set cacheKey (trim (w_name w)) names else names)"

definition kept_row :: "TmuxWindow \<Rightarrow> TmuxWindow \<Rightarrow> TmuxWindow" where
  "kept_row first second =
     (if length (w_name second) > length (w_name first) then second
      else if length (w_name first) > length (w_name second) then first
      else if w_active second \<and> \<not> w_active first then second
      else first)"

fun candidates ::
  "Mode \<Rightarrow> jsstring \<Rightarrow> (jsstring, jsstring) jsmap \<Rightarrow> TmuxWindow list \<Rightarrow> TmuxWindow list" where
  "candidates m sessionName names [] = []"
| "candidates m sessionName names (w # ws) =
     resolved_row names (cacheKeyFor m sessionName w None) w
       # candidates m sessionName (names_after names (cacheKeyFor m sessionName w None) w) ws"

text \<open>
  The merge of a whole list of resolved rows: the identity keys in the order of their
  first row, and for each key the row kept of its rows, taken in the order of the list and
  compared two by two with \<open>kept_row\<close>.
\<close>

fun merge_rows :: "TmuxWindow list \<Rightarrow> TmuxWindow list" where
  "merge_rows [] = []"
| "merge_rows (c # cs) =
     foldl kept_row c (filter (\<lambda>d. identity_key d = identity_key c) cs)
       # merge_rows (filter (\<lambda>d. identity_key d \<noteq> identity_key c) cs)"

text \<open>
  One step of the loop seen on the map alone, and what it means for a row to carry a
  trimmed name.
\<close>

definition upsert_row :: "TmuxWindow \<Rightarrow> (jsstring, TmuxWindow) jsmap \<Rightarrow> (jsstring, TmuxWindow) jsmap" where
  "upsert_row c m =
     (case map_get m (identity_key c) of
        None \<Rightarrow> map_set (identity_key c) c m
      | Some e \<Rightarrow> map_set (identity_key c) (kept_row e c) m)"

definition trimmed_name :: "TmuxWindow \<Rightarrow> bool" where
  "trimmed_name w = (trim (w_name w) = w_name w)"

text \<open>
  What the loop of \<open>normalizeWindows\<close> maintains of its map: the keys are distinct and
  each row is stored under its own identity key.
\<close>

definition keyed :: "(jsstring, TmuxWindow) jsmap \<Rightarrow> bool" where
  "keyed byKey = (distinct (map fst byKey) \<and> list_all (\<lambda>p. identity_key (snd p) = fst p) byKey)"

text \<open>A row of one pane, for the examples.\<close>

definition row :: "int \<Rightarrow> jsstring \<Rightarrow> jsstring \<Rightarrow> bool \<Rightarrow> TmuxWindow" where
  "row i wid n a = \<lparr>w_index = i, w_id = wid, w_name = n, w_active = a, w_panes = 1\<rparr>"

text \<open>
  The specification's wording of the end of a reply block: status \<open>0\<close> resolves with the
  accumulated lines; any other status rejects with the lines joined, or with the generic
  message when no line was accumulated.
\<close>

definition end_settle_spec :: "ControlPending \<Rightarrow> jsstring \<Rightarrow> settle" where
  "end_settle_spec e status =
     (if status = js ''0'' then Resolve (promise e) (data e)
      else Reject (promise e)
             (if data e = [] then js ''tmux error '' @ status else join [10] (data e)))"

text \<open>
  A session load overtaken by another: session \<open>arc\<close> is selected, its window list
  arrives, then session \<open>build\<close> is selected.
\<close>

definition demo_arc :: runs where
  "demo_arc = fst (selectSession (js ''arc'') None demo_remote)"

definition demo_arc_windows :: runs where
  "demo_arc_windows =
     fst (selectSession_windows 1 (js ''arc'') demo_profile
            (Inr [row 0 (js ''@1'') (js ''shell'') True]) demo_arc)"

definition demo_build :: runs where
  "demo_build = fst (selectSession (js ''build'') None demo_arc_windows)"

section \<open>Properties of the cache store\<close>

lemma fold_delete_filter:
  "fold (\<lambda>key c. if P key then map_delete key c else c) ks c
     = filter (\<lambda>p. \<not> (P (fst p) \<and> fst p \<in> set ks)) c"
proof (induction ks arbitrary: c)
  case Nil
  show ?case by simp
next
  case (Cons k ks)
  show ?case
  proof (cases "P k")
    case True
    have "filter (\<lambda>p. \<not> (P (fst p) \<and> fst p \<in> set ks)) (map_delete k c)
            = filter (\<lambda>p. \<not> (P (fst p) \<and> fst p \<in> set (k # ks))) c"
      unfolding map_delete_def filter_filter
      by (rule filter_cong) (use True in auto)
    with True Cons.IH [of "map_delete k c"] show ?thesis by simp
  next
    case False
    have "filter (\<lambda>p. \<not> (P (fst p) \<and> fst p \<in> set ks)) c
            = filter (\<lambda>p. \<not> (P (fst p) \<and> fst p \<in> set (k # ks))) c"
      by (rule filter_cong) (use False in auto)
    with False Cons.IH [of c] show ?thesis by simp
  qed
qed

lemma pruneWindowCache_filter:
  "pruneWindowCache cache scope sessionName wins
     = filter (\<lambda>p. \<not> (startsWith (fst p) (scope @ js ''/'' @ sessionName @ js ''/'')
                        \<and> fst p \<notin> set (prune_keep scope sessionName wins))) cache"
  unfolding pruneWindowCache_def Let_def map_keys_def fold_delete_filter
  by (rule filter_cong) auto

text \<open>
  C8. Pruning removes exactly the entries whose key starts with \<open>scope/session/\<close> and is
  not the cache key of one of the current windows; every other entry stays, with its
  value and in its place. The cache \<open>{scope/a/id:1, scope/a/idx:0, scope/b/idx:1}\<close> pruned
  for session \<open>a\<close> against the single window of index 0 becomes
  \<open>{scope/a/idx:0, scope/b/idx:1}\<close>.
\<close>

theorem pruneWindowCache_exact:
  "pruneWindowCache cache scope sessionName wins
     = filter (\<lambda>p. \<not> (startsWith (fst p) (scope @ js ''/'' @ sessionName @ js ''/'')
                        \<and> fst p \<notin> set (map (\<lambda>w. buildWindowCacheKey scope sessionName
                                                  (cw_index w) (cw_id w)) wins))) cache
   \<and> pruneWindowCache
        [(js ''scope/a/id:1'', js ''one''), (js ''scope/a/idx:0'', js ''zero''),
         (js ''scope/b/idx:1'', js ''other'')]
        (js ''scope'') (js ''a'') [\<lparr>cw_index = 0, cw_id = None\<rparr>]
     = [(js ''scope/a/idx:0'', js ''zero''), (js ''scope/b/idx:1'', js ''other'')]"
proof
  show "pruneWindowCache cache scope sessionName wins
     = filter (\<lambda>p. \<not> (startsWith (fst p) (scope @ js ''/'' @ sessionName @ js ''/'')
                        \<and> fst p \<notin> set (map (\<lambda>w. buildWindowCacheKey scope sessionName
                                                  (cw_index w) (cw_id w)) wins))) cache"
    using pruneWindowCache_filter [of cache scope sessionName wins]
    by (simp add: prune_keep_def)
next
  show "pruneWindowCache
        [(js ''scope/a/id:1'', js ''one''), (js ''scope/a/idx:0'', js ''zero''),
         (js ''scope/b/idx:1'', js ''other'')]
        (js ''scope'') (js ''a'') [\<lparr>cw_index = 0, cw_id = None\<rparr>]
     = [(js ''scope/a/idx:0'', js ''zero''), (js ''scope/b/idx:1'', js ''other'')]"
    by (simp add: pruneWindowCache_def prune_keep_def buildWindowCacheKey_def normalizeId_def
        trim_def js_def startsWith_def map_keys_def map_delete_def number_to_string_def
        digits_of.simps)
qed

section \<open>Properties of the control channel client\<close>

lemma split_on_no_sep: "sep \<notin> set a \<Longrightarrow> split_on sep a = [a]"
  by (induction a) auto

lemma split_on_append: "sep \<notin> set a \<Longrightarrow> split_on sep (a @ sep # b) = a # split_on sep b"
  by (induction a) auto

lemma js_begin: "js ''%%begin '' = js ''%%begin'' @ [32]"
  by (simp add: js_def)
lemma js_end: "js ''%%end '' = js ''%%end'' @ [32]"
  by (simp add: js_def)

lemma no_space_begin: "32 \<notin> set (js ''%%begin'')"
  by (simp add: js_def)
lemma no_space_end: "32 \<notin> set (js ''%%end'')"
  by (simp add: js_def)

lemma startsWith_append: "startsWith (p @ s) p"
  by (simp add: startsWith_def)

lemma begin_parts:
  "32 \<notin> set t \<Longrightarrow> at_index (split_on 32 (js ''%%begin '' @ t @ 32 # r)) (Suc 0) = Some t"
  using split_on_append [OF no_space_begin, of "t @ 32 # r"] split_on_append [of 32 t r]
  by (simp add: js_begin at_index_def)

lemma end_parts:
  "32 \<notin> set t \<Longrightarrow> 32 \<notin> set s \<Longrightarrow>
   split_on 32 (js ''%%end '' @ t @ 32 # s) = [js ''%%end'', t, s]"
  using split_on_append [OF no_space_end, of "t @ 32 # s"] split_on_append [of 32 t s]
    split_on_no_sep [of 32 s]
  by (simp add: js_end)


lemma split_on_nonempty: "split_on sep s \<noteq> []"
  by (cases s) (auto split: list.splits)

lemma tag_field_present:
  assumes "startsWith l (p @ [32])" "32 \<notin> set p"
  shows "at_index (split_on 32 l) (Suc 0) \<noteq> None"
proof -
  from assms(1) have "l = p @ 32 # drop (length p + 1) l"
    unfolding startsWith_def by (metis append_take_drop_id append.assoc append_Cons append_Nil
        length_append_singleton Suc_eq_plus1)
  then have "split_on 32 l = p # split_on 32 (drop (length p + 1) l)"
    using split_on_append [OF assms(2), of "drop (length p + 1) l"] by simp
  then show ?thesis
    using split_on_nonempty [of 32 "drop (length p + 1) l"]
    by (cases "split_on 32 (drop (length p + 1) l)") (simp_all add: at_index_def)
qed

lemma begin_has_tag:
  "startsWith l (js ''%%begin '') \<Longrightarrow> at_index (split_on 32 l) (Suc 0) \<noteq> None"
  using tag_field_present [of l "js ''%%begin''"] no_space_begin by (simp add: js_begin)

lemma end_has_tag:
  "startsWith l (js ''%%end '') \<Longrightarrow> at_index (split_on 32 l) (Suc 0) \<noteq> None"
  using tag_field_present [of l "js ''%%end''"] no_space_end by (simp add: js_end)

lemma not_begin_end: "\<not> startsWith (js ''%%end '' @ x) (js ''%%begin '')"
  by (simp add: startsWith_def js_def)
lemma not_data_end: "\<not> startsWith (js ''%%end '' @ x) (js ''%%data '')"
  by (simp add: startsWith_def js_def)

lemma handle_begin:
  assumes "32 \<notin> set t" "pending st = e # es"
  shows "handleControlLine (js ''%%begin '' @ t @ 32 # r) st
           = st\<lparr>pending := es, inflight := map_set t e (inflight st)\<rparr>"
  using assms by (simp add: handleControlLine_def startsWith_append begin_parts)

lemma handle_begin_empty:
  "startsWith l (js ''%%begin '') \<Longrightarrow> pending st = [] \<Longrightarrow> handleControlLine l st = st"
  by (simp add: handleControlLine_def split: option.splits)

lemma map_get_set: "map_get (map_set k v m) k' = (if k' = k then Some v else map_get m k')"
  by (induction m) (auto simp: map_get_def)

lemma map_get_delete: "map_get (map_delete k m) k' = (if k' = k then None else map_get m k')"
  by (induction m) (auto simp: map_get_def map_delete_def)

lemma join_empty: "join [10] d = [] \<longleftrightarrow> d = [] \<or> d = [[]]"
  by (induction "[10::nat]" d rule: join.induct) auto


lemma run_skip_resolved: "run es st = run (filter (\<lambda>e. \<not> is_SendResolved e) es) st"
  unfolding run_def
  by (induction es arbitrary: st) (auto simp: controlSend_resolved_def elim: is_SendResolved.elims)

lemma send_active:
  assumes "controlRef st = Some (session, profile)" "controlSessionKeyRef st = Some k" "k \<noteq> []"
  shows "snd (sendControlCommand cmd st)
           = st\<lparr>promises := promises st + 1,
                 pending := pending st @ [\<lparr>command = cmd, promise = promises st, data = []\<rparr>],
                 requests := requests st @ [ControlSend session cmd profile]\<rparr>"
  using assms by (simp add: sendControlCommand_def Let_def)

lemma step_line:
  assumes "controlSessionKeyRef st = Some k" "l \<noteq> []"
  shows "step (line_event k l) st = handleControlLine l st"
  using assms by (simp add: line_event_def control_event_def)

text \<open>
  C3. Commands issued in the order a, b, c on an active connection with an empty queue,
  followed by three \<open>%%begin\<close> lines: each line takes the oldest queued entry, so the tags
  of the first, second and third line are associated with a, b and c, wherever the
  completions of the sends fall among the events. (A tag repeated by a later line is
  associated with the later command.) A \<open>%%begin\<close> line that finds the queue empty leaves
  the state as it is.
\<close>

theorem begin_tags_fifo:
  assumes active: "controlRef st = Some (session, profile)" "controlSessionKeyRef st = Some k"
      "k \<noteq> []"
    and empty: "pending st = []"
    and tags: "32 \<notin> set t1" "32 \<notin> set t2" "32 \<notin> set t3"
    and order: "filter (\<lambda>e. \<not> is_SendResolved e) es =
      [Send a, Send b, Send c,
       line_event k (js ''%%begin '' @ t1 @ 32 # r1),
       line_event k (js ''%%begin '' @ t2 @ 32 # r2),
       line_event k (js ''%%begin '' @ t3 @ 32 # r3)]"
  shows "map_get (inflight (run es st)) t3
           = Some \<lparr>command = c, promise = promises st + 2, data = []\<rparr>
       \<and> (t2 \<noteq> t3 \<longrightarrow> map_get (inflight (run es st)) t2
             = Some \<lparr>command = b, promise = promises st + 1, data = []\<rparr>)
       \<and> (t1 \<noteq> t2 \<and> t1 \<noteq> t3 \<longrightarrow> map_get (inflight (run es st)) t1
             = Some \<lparr>command = a, promise = promises st, data = []\<rparr>)
       \<and> pending (run es st) = []
       \<and> (\<forall>l st'. startsWith l (js ''%%begin '') \<and> pending st' = []
             \<longrightarrow> handleControlLine l st' = st')"
proof -
  define ea where "ea = \<lparr>command = a, promise = promises st, data = []\<rparr>"
  define eb where "eb = \<lparr>command = b, promise = promises st + 1, data = []\<rparr>"
  define ec where "ec = \<lparr>command = c, promise = promises st + 2, data = []\<rparr>"
  define s1 where "s1 = step (Send a) st"
  define s2 where "s2 = step (Send b) s1"
  define s3 where "s3 = step (Send c) s2"
  define s4 where "s4 = step (line_event k (js ''%%begin '' @ t1 @ 32 # r1)) s3"
  define s5 where "s5 = step (line_event k (js ''%%begin '' @ t2 @ 32 # r2)) s4"
  define s6 where "s6 = step (line_event k (js ''%%begin '' @ t3 @ 32 # r3)) s5"
  have nonempty: "js ''%%begin '' @ t @ 32 # r \<noteq> []" for t r by simp
  have s1: "controlRef s1 = Some (session, profile)" "controlSessionKeyRef s1 = Some k"
      "pending s1 = [ea]" "promises s1 = promises st + 1" "inflight s1 = inflight st"
    using send_active [OF active, of a] empty active by (simp_all add: s1_def ea_def)
  have s2: "controlRef s2 = Some (session, profile)" "controlSessionKeyRef s2 = Some k"
      "pending s2 = [ea, eb]" "promises s2 = promises st + 2" "inflight s2 = inflight st"
    using send_active [OF s1(1,2) active(3), of b] s1 by (simp_all add: s2_def eb_def)
  have s3: "controlSessionKeyRef s3 = Some k" "pending s3 = [ea, eb, ec]"
      "inflight s3 = inflight st"
    using send_active [OF s2(1,2) active(3), of c] s2 by (simp_all add: s3_def ec_def)
  have s4: "controlSessionKeyRef s4 = Some k" "pending s4 = [eb, ec]"
      "inflight s4 = map_set t1 ea (inflight st)"
    using step_line [OF s3(1) nonempty, of t1 r1] handle_begin [OF tags(1) s3(2), of r1] s3
    by (simp_all add: s4_def)
  have s5: "controlSessionKeyRef s5 = Some k" "pending s5 = [ec]"
      "inflight s5 = map_set t2 eb (map_set t1 ea (inflight st))"
    using step_line [OF s4(1) nonempty, of t2 r2] handle_begin [OF tags(2) s4(2), of r2] s4
    by (simp_all add: s5_def)
  have s6: "pending s6 = []"
      "inflight s6 = map_set t3 ec (map_set t2 eb (map_set t1 ea (inflight st)))"
    using step_line [OF s5(1) nonempty, of t3 r3] handle_begin [OF tags(3) s5(2), of r3] s5
    by (simp_all add: s6_def)
  have "run es st = s6"
    unfolding run_skip_resolved [of es st] order
    by (simp add: run_def s1_def s2_def s3_def s4_def s5_def s6_def)
  with s6 show ?thesis
    by (simp add: map_get_set ea_def eb_def ec_def handle_begin_empty)
qed

lemma demo_ready_fields:
  "controlRef demo_ready = Some (js ''arc'', demo_profile)"
  "controlSessionKeyRef demo_ready = Some (js ''ops@node:22#arc'')"
  "pending demo_ready = []" "inflight demo_ready = []" "promises demo_ready = 0"
  "settled demo_ready = []" "controlDisconnected demo_ready = False"
  "controlStartedRef demo_ready = False" "mode demo_ready = RemoteMode demo_profile"
  by (simp_all add: demo_ready_def demo_remote_def initial_def startControlSession_def
      resetControlQueues_def cloneProfile_def controlSessionKeyFor_def demo_profile_def
      port_or_22_def number_to_string_def digits_of.simps js_def map_values_def Let_def)

theorem begin_tags_fifo_witness:
  "map_get (inflight (run
      [Send (js ''list-windows''), SendResolved 0, Send (js ''capture-pane''),
       Send (js ''send-keys''), SendResolved 2, SendResolved 1,
       line_event (js ''ops@node:22#arc'') (js ''%%begin '' @ js ''7'' @ 32 # js ''1700 1''),
       line_event (js ''ops@node:22#arc'') (js ''%%begin '' @ js ''8'' @ 32 # js ''1700 1''),
       line_event (js ''ops@node:22#arc'') (js ''%%begin '' @ js ''9'' @ 32 # js ''1700 1'')]
      demo_ready)) (js ''7'')
     = Some \<lparr>command = js ''list-windows'', promise = 0, data = []\<rparr>"
proof -
  have k: "js ''ops@node:22#arc'' \<noteq> []" by (simp add: js_def)
  have t: "32 \<notin> set (js ''7'')" "32 \<notin> set (js ''8'')" "32 \<notin> set (js ''9'')"
    by (simp_all add: js_def)
  have d: "js ''7'' \<noteq> js ''8''" "js ''7'' \<noteq> js ''9''" by (simp_all add: js_def)
  have f: "filter (\<lambda>e. \<not> is_SendResolved e)
      [Send (js ''list-windows''), SendResolved 0, Send (js ''capture-pane''),
       Send (js ''send-keys''), SendResolved 2, SendResolved 1,
       line_event (js ''ops@node:22#arc'') (js ''%%begin '' @ js ''7'' @ 32 # js ''1700 1''),
       line_event (js ''ops@node:22#arc'') (js ''%%begin '' @ js ''8'' @ 32 # js ''1700 1''),
       line_event (js ''ops@node:22#arc'') (js ''%%begin '' @ js ''9'' @ 32 # js ''1700 1'')]
     = [Send (js ''list-windows''), Send (js ''capture-pane''), Send (js ''send-keys''),
       line_event (js ''ops@node:22#arc'') (js ''%%begin '' @ js ''7'' @ 32 # js ''1700 1''),
       line_event (js ''ops@node:22#arc'') (js ''%%begin '' @ js ''8'' @ 32 # js ''1700 1''),
       line_event (js ''ops@node:22#arc'') (js ''%%begin '' @ js ''9'' @ 32 # js ''1700 1'')]"
    by (simp add: line_event_def)
  from begin_tags_fifo [OF demo_ready_fields(1,2) k demo_ready_fields(3) t f] d
  show ?thesis by (simp add: demo_ready_fields)
qed

text \<open>
  C1. After \<open>startControlSession\<close> and a \<open>started\<close> event carrying the key of that
  session, the connection is in remote mode, not flagged disconnected, and holds its
  session and key; yet \<open>controlStartedRef\<close> is still false and \<open>controlReady\<close> answers
  false.
\<close>

theorem started_event_not_ready:
  "controlSessionKeyRef demo_ready = Some demo_key
   \<and> (let st = control_event \<lparr>ev_key = demo_key, ev_kind = js ''started'', ev_line = None\<rparr> demo_ready
      in mode st = RemoteMode demo_profile \<and> \<not> controlDisconnected st \<and> controlRef st \<noteq> None
         \<and> controlSessionKeyRef st = Some demo_key \<and> \<not> controlStartedRef st
         \<and> \<not> controlReady st)"
  by (simp add: demo_ready_fields demo_key_def control_event_def resetControlQueues_def
      controlReady_def js_def Let_def)

lemma controlStartedRef_step: "controlStartedRef (step e st) \<Longrightarrow> controlStartedRef st"
  by (cases e)
    (auto simp: startControlSession_def startControl_failed_def stopControlSession_def
      sendControlCommand_def controlSend_resolved_def controlSend_failed_def control_event_def
      resetControlQueues_def handleControlLine_def Let_def
      split: option.splits list.splits if_splits Mode.splits prod.splits)

lemma controlReady_never: "\<not> controlStartedRef st \<Longrightarrow> \<not> controlReady (run es st)"
proof -
  have "controlStartedRef (run es st) \<Longrightarrow> controlStartedRef st"
    unfolding run_def
  proof (induction es arbitrary: st)
    case Nil
    then show ?case by simp
  next
    case (Cons e es)
    from Cons.IH [of "step e st"] Cons.prems show ?case
      by (auto dest: controlStartedRef_step)
  qed
  then show "\<not> controlStartedRef st \<Longrightarrow> \<not> controlReady (run es st)"
    by (auto simp: controlReady_def)
qed

lemmas demo_defs = demo_ready_def demo_remote_def initial_def startControlSession_def
      resetControlQueues_def cloneProfile_def controlSessionKeyFor_def demo_profile_def
      port_or_22_def number_to_string_def digits_of.simps js_def map_values_def Let_def
      run_def line_event_def demo_key_def sendControlCommand_def control_event_def
      handleControlLine_def startsWith_def at_index_def map_get_def map_delete_def

lemma demo_failed_fields:
  "inflight demo_failed = [(js ''7'', \<lparr>command = js ''list-windows'', promise = 0, data = [js ''no session'']\<rparr>)]"
  "settled demo_failed = []" "pending demo_failed = []"
  by (simp_all add: demo_failed_def demo_defs)

lemma demo_blank_fields:
  "inflight demo_blank = [(js ''7'', \<lparr>command = js ''list-windows'', promise = 0, data = [[]]\<rparr>)]"
  "settled demo_blank = []" "pending demo_blank = []"
  by (simp_all add: demo_blank_def demo_defs)










text \<open>
  C5, as stated, fails when the accumulated lines are a single empty line: the lines joined
  are the empty string, but the error carries the generic message.
\<close>

theorem end_blank_data_counterexample:
  "map_get (inflight demo_blank) (js ''7'')
     = Some \<lparr>command = js ''list-windows'', promise = 0, data = [[]]\<rparr>
   \<and> settled (handleControlLine (js ''%%end 7 1'') demo_blank) = [Reject 0 (js ''tmux error 1'')]
   \<and> end_settle_spec \<lparr>command = js ''list-windows'', promise = 0, data = [[]]\<rparr> (js ''1'')
       = Reject 0 []"
  by (simp add: demo_blank_fields handleControlLine_def end_settle_spec_def
      startsWith_def at_index_def map_get_def map_delete_def js_def)

text \<open>
  C5, amended. For an in-flight entry with tag \<open>t\<close>, the line \<open>%%end t s\<close> removes the
  entry from the in-flight map; with \<open>s = 0\<close> its \<open>resolve\<close> is called with the accumulated
  lines, otherwise its \<open>reject\<close> is called with the lines joined by newlines, or with
  \<open>tmux error s\<close> when that text is empty, which is the case when no line or one empty
  line was accumulated.
\<close>

theorem end_line_settles:
  assumes "map_get (inflight st) t = Some e" "32 \<notin> set t" "32 \<notin> set s"
  shows "handleControlLine (js ''%%end '' @ t @ 32 # s) st
           = st\<lparr>inflight := map_delete t (inflight st),
                 settled := settled st @
                   [if s = js ''0'' then Resolve (promise e) (data e)
                    else Reject (promise e)
                      (if join [10] (data e) = [] then js ''tmux error '' @ s
                       else join [10] (data e))]\<rparr>
       \<and> map_get (inflight (handleControlLine (js ''%%end '' @ t @ 32 # s) st)) t = None
       \<and> (join [10] (data e) = [] \<longleftrightarrow> data e = [] \<or> data e = [[]])"
proof -
  have "handleControlLine (js ''%%end '' @ t @ 32 # s) st
           = st\<lparr>inflight := map_delete t (inflight st),
                 settled := settled st @
                   [if s = js ''0'' then Resolve (promise e) (data e)
                    else Reject (promise e)
                      (if join [10] (data e) = [] then js ''tmux error '' @ s
                       else join [10] (data e))]\<rparr>"
    using assms
    by (simp add: handleControlLine_def startsWith_append not_begin_end not_data_end end_parts
        at_index_def Let_def)
  then show ?thesis
    by (simp add: map_get_delete join_empty)
qed

theorem end_line_settles_witness:
  "settled (handleControlLine (js ''%%end '' @ js ''7'' @ 32 # js ''1'') demo_failed)
     = [Reject 0 (js ''no session'')]
   \<and> inflight (handleControlLine (js ''%%end '' @ js ''7'' @ 32 # js ''1'') demo_failed) = []"
proof -
  have g: "map_get (inflight demo_failed) (js ''7'')
     = Some \<lparr>command = js ''list-windows'', promise = 0, data = [js ''no session'']\<rparr>"
    by (simp add: demo_failed_fields map_get_def)
  have t: "32 \<notin> set (js ''7'')" "32 \<notin> set (js ''1'')"
    by (simp_all add: js_def)
  from end_line_settles [OF g t] show ?thesis
    by (simp add: demo_failed_fields map_delete_def js_def)
qed





section \<open>Properties of command text and payload decoding\<close>

lemma quote_body_eq:
  "concat (map (\<lambda>c. if c = QUOTE then [QUOTE, DQUOTE, QUOTE, DQUOTE, QUOTE] else [c]) v)
     = quote_body v"
  by (induction v) (simp_all add: QUOTE_def DQUOTE_def)

lemma escapeArg_eq: "escapeArg v = emit_nonempty v"
  using quote_body_eq [of v] by (simp add: escapeArg_def emit_nonempty_def QUOTE_def DQUOTE_def)

lemma escape_unit_eq:
  "is_digit d1 \<Longrightarrow> is_digit d2 \<Longrightarrow> is_digit d3 \<Longrightarrow>
   fromCharCode (parseInt8 [d1, d2, d3]) = escape_unit d1 d2 d3"
  unfolding fromCharCode_def parseInt8_def escape_unit_def octal_value_def is_digit_def
    is_octal_digit_def
  by (auto simp: Let_def)

lemma replace_octal_eq: "replace_octal s = decimal_escapes s"
  by (induction s rule: replace_octal.induct) (simp_all add: escape_unit_eq)

lemma octal_digit_cases: "is_digit d \<Longrightarrow> d \<noteq> 56 \<Longrightarrow> d \<noteq> 57 \<Longrightarrow> is_octal_digit d"
  by (auto simp: is_digit_def is_octal_digit_def)

lemma decimal_escapes_octal:
  "56 \<notin> set s \<Longrightarrow> 57 \<notin> set s \<Longrightarrow> decimal_escapes s = octal_escapes_spec s"
  by (induction s rule: decimal_escapes.induct)
    (auto simp: escape_unit_def is_digit_def is_octal_digit_def)

lemma decode_agrees_without_8_9:
  "56 \<notin> set (concat chunks) \<Longrightarrow> 57 \<notin> set (concat chunks) \<Longrightarrow>
   decodeTmuxData chunks = decode_spec chunks"
  by (simp add: decodeTmuxData_def decode_spec_def replace_octal_eq decimal_escapes_octal
      del: set_concat)

text \<open>
  C9, as stated, fails for the empty value: it has no unit outside the class, so the
  specification's wording emits it as it is, while the source emits \<open>''\<close>.
\<close>

theorem sendKeys_empty_value_counterexample:
  "buildSendKeysControlCommand (js ''arc:0'') [] False = [js ''send-keys -t arc:0 -l '' @ [39, 39]]
   \<and> sendKeys_spec (js ''arc:0'') [] False = [js ''send-keys -t arc:0 -l '']"
  by (simp add: buildSendKeysControlCommand_def sendKeys_spec_def escapeArg_def emit_spec_def
      is_safe_char_def js_def QUOTE_def)

text \<open>
  C9, amended. With \<open>withEnter\<close> the result is the two commands
  \<open>send-keys -t <target> -l <keys>\<close> and \<open>send-keys -t <target> Enter\<close>, without it the first
  only. A value is emitted as it is when it is not empty and all its units are in
  \<open>[A-Za-z0-9_@:-]\<close>; any other value, the empty one included, is single-quoted with each
  single quote written \<open>'"'"'\<close>. Keys \<open>ls -la\<close> for target \<open>arc:0\<close> give
  \<open>send-keys -t arc:0 -l 'ls -la'\<close> and \<open>send-keys -t arc:0 Enter\<close>.
\<close>

theorem sendKeys_commands:
  "buildSendKeysControlCommand target keys withEnter
     = (if withEnter
        then [js ''send-keys -t '' @ emit_nonempty target @ js '' -l '' @ emit_nonempty keys,
              js ''send-keys -t '' @ emit_nonempty target @ js '' Enter'']
        else [js ''send-keys -t '' @ emit_nonempty target @ js '' -l '' @ emit_nonempty keys])
   \<and> buildSendKeysControlCommand (js ''arc:0'') (js ''ls -la'') True
       = [js ''send-keys -t arc:0 -l '' @ [39] @ js ''ls -la'' @ [39],
          js ''send-keys -t arc:0 Enter'']"
proof
  show "buildSendKeysControlCommand target keys withEnter
     = (if withEnter
        then [js ''send-keys -t '' @ emit_nonempty target @ js '' -l '' @ emit_nonempty keys,
              js ''send-keys -t '' @ emit_nonempty target @ js '' Enter'']
        else [js ''send-keys -t '' @ emit_nonempty target @ js '' -l '' @ emit_nonempty keys])"
    by (simp add: buildSendKeysControlCommand_def escapeArg_eq Let_def)
next
  show "buildSendKeysControlCommand (js ''arc:0'') (js ''ls -la'') True
       = [js ''send-keys -t arc:0 -l '' @ [39] @ js ''ls -la'' @ [39],
          js ''send-keys -t arc:0 Enter'']"
    by (simp add: buildSendKeysControlCommand_def escapeArg_def is_safe_char_def js_def
        QUOTE_def)
qed

text \<open>
  The source's own reading of an escape, step by step, and the two examples of the
  specification: the payload \<open>\134\<close> decodes to one backslash and a doubled backslash
  decodes to one backslash.
\<close>

lemma decodeTmuxData_decimal_escapes:
  "decodeTmuxData chunks = collapse_backslashes (decimal_escapes (concat chunks))"
  by (simp add: decodeTmuxData_def replace_octal_eq)

lemma decodeTmuxData_examples:
  "decodeTmuxData [92 # js ''134''] = [92]"
  "decodeTmuxData [[92, 92]] = [92]"
  "decode_spec [92 # js ''134''] = [92]"
  "decode_spec [[92, 92]] = [92]"
  by (simp_all add: decodeTmuxData_def decode_spec_def js_def is_digit_def is_octal_digit_def
      parseInt8_def fromCharCode_def octal_value_def)

text \<open>
  C6. Where no line holds the digit 8 or 9 the source decodes as the claim says
  (\<open>decode_agrees_without_8_9\<close>). It departs from the claim on a backslash followed by
  three decimal digits that are not all octal. The pane text \<open>\189\<close>, sent with its
  backslash doubled, holds no octal escape, so the claim's decoding only collapses the
  doubled backslash and gives \<open>\189\<close> back; the source matches the second backslash with
  \<open>189\<close>, reads the octal prefix \<open>1\<close> and gives a backslash followed by the unit 1. The
  payload \<open>\189\<close> alone is left as it is by the claim's decoding and becomes the unit 1 in
  the source.
\<close>

theorem decode_non_octal_digits:
  "decodeTmuxData [[92, 92] @ js ''189''] = [92, 1]
   \<and> decode_spec [[92, 92] @ js ''189''] = 92 # js ''189''
   \<and> decodeTmuxData [92 # js ''189''] = [1]
   \<and> decode_spec [92 # js ''189''] = 92 # js ''189''"
  by (simp add: decodeTmuxData_def decode_spec_def js_def is_digit_def is_octal_digit_def
      parseInt8_def fromCharCode_def)

section \<open>Properties of the window-list reconciliation\<close>

lemma dropWhile_hd: "xs = [] \<or> \<not> P (hd xs) \<Longrightarrow> dropWhile P xs = xs"
  by (cases xs) auto

lemma trim_idem: "trim (trim s) = trim s"
proof -
  define u where "u = dropWhile is_js_space s"
  define v where "v = dropWhile is_js_space (rev u)"
  have t: "trim s = rev v"
    by (simp add: trim_def u_def v_def)
  have u: "u = rev v @ rev (takeWhile is_js_space (rev u))"
    using takeWhile_dropWhile_id [of is_js_space "rev u"]
    by (metis rev_append rev_rev_ident v_def)
  have hu: "u = [] \<or> \<not> is_js_space (hd u)"
    unfolding u_def using hd_dropWhile [of is_js_space s] by blast
  have "rev v = [] \<or> \<not> is_js_space (hd (rev v))"
  proof (cases "rev v = []")
    case True
    then show ?thesis by simp
  next
    case False
    then have "hd u = hd (rev v)"
      using u by (metis hd_append2)
    moreover have "u \<noteq> []"
      using u False by auto
    ultimately show ?thesis using hu by simp
  qed
  then have a: "dropWhile is_js_space (rev v) = rev v"
    by (rule dropWhile_hd)
  have b: "dropWhile is_js_space v = v"
    by (simp add: v_def)
  show ?thesis
    unfolding t by (simp add: trim_def a b)
qed


lemma set_map_set: "fst ` set (map_set k v m) = insert k (fst ` set m)"
  by (induction m) auto

lemma distinct_map_set: "distinct (map fst m) \<Longrightarrow> distinct (map fst (map_set k v m))"
proof (induction m)
  case Nil
  then show ?case by simp
next
  case (Cons p m)
  then show ?case
    using set_map_set [of k v m] by (auto simp: image_iff)
qed

lemma in_map_set: "p \<in> set (map_set k v m) \<Longrightarrow> p = (k, v) \<or> p \<in> set m"
  by (induction m) (auto split: if_splits)

lemma list_all_map_set: "list_all P m \<Longrightarrow> P (k, v) \<Longrightarrow> list_all P (map_set k v m)"
  by (induction m) auto

lemma values_map_set: "snd ` set (map_set k v m) \<subseteq> insert v (snd ` set m)"
  by (induction m) auto

lemma map_get_None: "map_get m k = None \<longleftrightarrow> k \<notin> fst ` set m"
  by (simp add: map_get_def map_of_eq_None_iff)

lemma map_get_Some: "map_get m k = Some v \<Longrightarrow> (k, v) \<in> set m"
  by (simp add: map_get_def map_of_SomeD)

lemma identity_key_resolved: "identity_key (resolved_row names ck w) = identity_key w"
  by (simp add: identity_key_def resolved_row_def trim_idem)

lemma normalize_step_eq:
  "normalize_step m sessionName w (byKey, names) =
     (let ck = cacheKeyFor m sessionName w None;
          cand = resolved_row names ck w
      in ((case map_get byKey (identity_key w) of
             None \<Rightarrow> map_set (identity_key w) cand byKey
           | Some existing \<Rightarrow>
               if length (w_name cand) > length (trim (w_name existing))
                  \<or> (length (w_name cand) = length (trim (w_name existing))
                      \<and> w_active w \<and> \<not> w_active existing)
               then map_set (identity_key w) cand byKey else byKey),
          names_after names ck w))"
proof -
  have n: "(case map_get names ck of None \<Rightarrow> [] | Some cached \<Rightarrow> if cached \<noteq> [] then cached else [])
             = (case map_get names ck of None \<Rightarrow> [] | Some cached \<Rightarrow> cached)" for ck
    by (simp split: option.splits)
  show ?thesis
    by (cases "trim (w_id w) = []"; cases "trim (w_name w) = []";
        cases "map_get byKey (identity_key w)")
      (simp_all add: normalize_step_def identity_key_def resolved_row_def resolved_name_def
        names_after_def n Let_def)
qed

lemma keyed_step:
  assumes "keyed byKey"
  shows "keyed (fst (normalize_step m sessionName w (byKey, names)))"
    and "fst ` set (fst (normalize_step m sessionName w (byKey, names)))
           = insert (identity_key w) (fst ` set byKey)"
    and "snd ` set (fst (normalize_step m sessionName w (byKey, names)))
           \<subseteq> insert (resolved_row names (cacheKeyFor m sessionName w None) w) (snd ` set byKey)"
    and "snd (normalize_step m sessionName w (byKey, names))
           = names_after names (cacheKeyFor m sessionName w None) w"
proof -
  let ?cand = "resolved_row names (cacheKeyFor m sessionName w None) w"
  have k: "keyed (map_set (identity_key w) ?cand byKey)"
    using assms distinct_map_set [of byKey "identity_key w" ?cand]
      list_all_map_set [of "\<lambda>p. identity_key (snd p) = fst p" byKey "identity_key w" ?cand]
    by (simp add: keyed_def identity_key_resolved)
  show "keyed (fst (normalize_step m sessionName w (byKey, names)))"
    using assms k by (simp add: normalize_step_eq Let_def split: option.splits)
  show "fst ` set (fst (normalize_step m sessionName w (byKey, names)))
           = insert (identity_key w) (fst ` set byKey)"
  proof (cases "map_get byKey (identity_key w)")
    case None
    then show ?thesis
      by (simp add: normalize_step_eq Let_def set_map_set)
  next
    case (Some existing)
    then have "identity_key w \<in> fst ` set byKey"
      using map_get_None [of byKey "identity_key w"] by simp
    then have "insert (identity_key w) (fst ` set byKey) = fst ` set byKey"
      by blast
    with Some show ?thesis
      by (simp add: normalize_step_eq Let_def set_map_set)
  qed
  show "snd ` set (fst (normalize_step m sessionName w (byKey, names)))
           \<subseteq> insert ?cand (snd ` set byKey)"
    using values_map_set [of "identity_key w" ?cand byKey]
    by (auto simp: normalize_step_eq Let_def split: option.splits)
  show "snd (normalize_step m sessionName w (byKey, names))
           = names_after names (cacheKeyFor m sessionName w None) w"
    by (simp add: normalize_step_eq Let_def)
qed

lemma keyed_fold:
  assumes "keyed byKey"
  shows "keyed (fst (fold (normalize_step m sessionName) ws (byKey, names)))
       \<and> fst ` set (fst (fold (normalize_step m sessionName) ws (byKey, names)))
           = identity_key ` set ws \<union> fst ` set byKey
       \<and> snd ` set (fst (fold (normalize_step m sessionName) ws (byKey, names)))
           \<subseteq> set (candidates m sessionName names ws) \<union> snd ` set byKey"
  using assms
proof (induction ws arbitrary: byKey names)
  case Nil
  then show ?case by simp
next
  case (Cons w ws)
  obtain byKey1 names1 where s: "normalize_step m sessionName w (byKey, names) = (byKey1, names1)"
    by (cases "normalize_step m sessionName w (byKey, names)")
  from keyed_step [OF Cons.prems, of m sessionName w names] s
  have k1: "keyed byKey1"
    and f1: "fst ` set byKey1 = insert (identity_key w) (fst ` set byKey)"
    and v1: "snd ` set byKey1
               \<subseteq> insert (resolved_row names (cacheKeyFor m sessionName w None) w) (snd ` set byKey)"
    and n1: "names1 = names_after names (cacheKeyFor m sessionName w None) w"
    by simp_all
  define F where "F = fst (fold (normalize_step m sessionName) ws (byKey1, names1))"
  from Cons.IH [OF k1, of names1]
  have kF: "keyed F"
    and fF: "fst ` set F = identity_key ` set ws \<union> fst ` set byKey1"
    and vF: "snd ` set F \<subseteq> set (candidates m sessionName names1 ws) \<union> snd ` set byKey1"
    by (simp_all add: F_def)
  have e: "fst (fold (normalize_step m sessionName) (w # ws) (byKey, names)) = F"
    by (simp add: F_def s)
  have c: "candidates m sessionName names (w # ws)
             = resolved_row names (cacheKeyFor m sessionName w None) w
                 # candidates m sessionName names1 ws"
    by (simp add: n1)
  have "fst ` set F = identity_key ` set (w # ws) \<union> fst ` set byKey"
    using fF f1 by auto
  moreover have "snd ` set F \<subseteq> set (candidates m sessionName names (w # ws)) \<union> snd ` set byKey"
    unfolding c using vF v1 by auto
  ultimately show ?case
    unfolding e using kF by blast
qed

lemma distinct_map_insort:
  "distinct (map g (insort_key f x xs)) = distinct (map g (x # xs))"
  by (induction xs) (auto simp: set_insort_key)

lemma distinct_map_sort: "distinct (map g (sort_key f xs)) = distinct (map g xs)"
  by (induction xs) (simp_all add: distinct_map_insort)

lemma keyed_values: "keyed byKey \<Longrightarrow> map identity_key (map snd byKey) = map fst byKey"
  by (induction byKey) (auto simp: keyed_def)


lemma resolved_name_trimmed:
  assumes "list_all (\<lambda>p. trim (snd p) = snd p) names"
  shows "trim (resolved_name names ck w) = resolved_name names ck w"
proof (cases "trim (w_name w) = []")
  case False
  then show ?thesis by (simp add: resolved_name_def trim_idem)
next
  case True
  show ?thesis
  proof (cases "map_get names ck")
    case None
    with True show ?thesis by (simp add: resolved_name_def trim_def)
  next
    case (Some cached)
    then have "(ck, cached) \<in> set names" by (rule map_get_Some)
    with assms have "trim cached = cached" by (auto simp: list_all_iff)
    with True Some show ?thesis by (simp add: resolved_name_def)
  qed
qed

lemma names_after_trimmed:
  assumes "list_all (\<lambda>p. trim (snd p) = snd p) names"
  shows "list_all (\<lambda>p. trim (snd p) = snd p) (names_after names ck w)"
  using assms list_all_map_set [of "\<lambda>p. trim (snd p) = snd p" names ck "trim (w_name w)"]
  by (simp add: names_after_def trim_idem)

lemma fold_names_trimmed:
  assumes "list_all (\<lambda>p. trim (snd p) = snd p) names"
  shows "list_all (\<lambda>p. trim (snd p) = snd p)
           (snd (fold (normalize_step m sessionName) ws (byKey, names)))"
  using assms
proof (induction ws arbitrary: byKey names)
  case Nil
  then show ?case by simp
next
  case (Cons w ws)
  obtain byKey1 names1 where s: "normalize_step m sessionName w (byKey, names) = (byKey1, names1)"
    by (cases "normalize_step m sessionName w (byKey, names)")
  then have "names1 = names_after names (cacheKeyFor m sessionName w None) w"
    by (simp add: normalize_step_eq Let_def)
  with names_after_trimmed [OF Cons.prems] have "list_all (\<lambda>p. trim (snd p) = snd p) names1"
    by simp
  from Cons.IH [OF this, of byKey1] show ?case
    by (simp add: s)
qed

lemma normalizeWindows_names_trimmed:
  "list_all (\<lambda>p. trim (snd p) = snd p) (nameCacheRef st) \<Longrightarrow>
   list_all (\<lambda>p. trim (snd p) = snd p) (nameCacheRef (snd (normalizeWindows sessionName ws st)))"
  using fold_names_trimmed [of "nameCacheRef st" "mode st" sessionName ws "[]"]
  by (simp add: normalizeWindows_def Let_def)

lemma normalizeWindows_one:
  "fst (normalizeWindows sessionName [a] st)
     = [resolved_row (nameCacheRef st) (cacheKeyFor (mode st) sessionName a None) a]"
  by (simp add: normalizeWindows_def normalize_step_eq Let_def map_get_def map_values_def)

lemma normalizeWindows_two:
  assumes "identity_key a = identity_key b"
    and "list_all (\<lambda>p. trim (snd p) = snd p) (nameCacheRef st)"
  shows "fst (normalizeWindows sessionName [a, b] st)
     = [kept_row
          (resolved_row (nameCacheRef st) (cacheKeyFor (mode st) sessionName a None) a)
          (resolved_row
             (names_after (nameCacheRef st) (cacheKeyFor (mode st) sessionName a None) a)
             (cacheKeyFor (mode st) sessionName b None) b)]"
proof -
  let ?ka = "cacheKeyFor (mode st) sessionName a None"
  let ?ca = "resolved_row (nameCacheRef st) ?ka a"
  let ?n1 = "names_after (nameCacheRef st) ?ka a"
  let ?cb = "resolved_row ?n1 (cacheKeyFor (mode st) sessionName b None) b"
  have s1: "normalize_step (mode st) sessionName a ([], nameCacheRef st)
              = ([(identity_key a, ?ca)], ?n1)"
    by (simp add: normalize_step_eq Let_def map_get_def)
  have ta: "trim (w_name ?ca) = w_name ?ca"
    using resolved_name_trimmed [OF assms(2)] by (simp add: resolved_row_def)
  have g: "map_get [(identity_key a, ?ca)] (identity_key b) = Some ?ca"
    using assms(1) by (simp add: map_get_def)
  have a: "w_active ?ca = w_active a" "w_active ?cb = w_active b"
    by (simp_all add: resolved_row_def)
  have s2: "fst (normalize_step (mode st) sessionName b ([(identity_key a, ?ca)], ?n1))
              = [(identity_key a, kept_row ?ca ?cb)]"
    using assms(1) g by (auto simp: normalize_step_eq Let_def ta a kept_row_def)
  show ?thesis
    by (simp add: normalizeWindows_def Let_def s1 s2 map_values_def)
qed

lemma normalizeWindows_general:
  "sorted (map w_index (fst (normalizeWindows sessionName ws st)))
   \<and> distinct (map identity_key (fst (normalizeWindows sessionName ws st)))
   \<and> identity_key ` set (fst (normalizeWindows sessionName ws st)) = identity_key ` set ws
   \<and> set (fst (normalizeWindows sessionName ws st))
        \<subseteq> set (candidates (mode st) sessionName (nameCacheRef st) ws)"
proof -
  define byKey where
    "byKey = fst (fold (normalize_step (mode st) sessionName) ws ([], nameCacheRef st))"
  have out: "fst (normalizeWindows sessionName ws st) = sort_key w_index (map snd byKey)"
    by (simp add: normalizeWindows_def Let_def byKey_def map_values_def)
  have k0: "keyed []"
    by (simp add: keyed_def)
  from keyed_fold [OF k0, of "mode st" sessionName ws "nameCacheRef st"]
  have k: "keyed byKey"
    and f: "fst ` set byKey = identity_key ` set ws"
    and v: "snd ` set byKey \<subseteq> set (candidates (mode st) sessionName (nameCacheRef st) ws)"
    by (simp_all add: byKey_def)
  have m: "map identity_key (map snd byKey) = map fst byKey"
    using k by (rule keyed_values)
  have "sorted (map w_index (sort_key w_index (map snd byKey)))"
    by (rule sorted_sort_key)
  moreover have "distinct (map identity_key (sort_key w_index (map snd byKey)))"
    unfolding distinct_map_sort m using k by (simp add: keyed_def)
  moreover have "identity_key ` set (sort_key w_index (map snd byKey)) = identity_key ` set ws"
  proof -
    have "identity_key ` set (map snd byKey) = set (map fst byKey)"
      using m by (metis list.set_map)
    then show ?thesis using f by simp
  qed
  moreover have "set (sort_key w_index (map snd byKey))
                   \<subseteq> set (candidates (mode st) sessionName (nameCacheRef st) ws)"
    using v by simp
  ultimately show ?thesis
    unfolding out by blast
qed


lemma digits_of_value: "foldl (\<lambda>a d. 10 * a + (d - 48)) 0 (digits_of n) = n"
proof (induction n rule: digits_of.induct)
  case (1 n)
  show ?case
  proof (cases "n < 10")
    case True
    then have "digits_of n = [48 + n]"
      by (subst digits_of.simps) simp
    then show ?thesis by simp
  next
    case False
    then have d: "digits_of n = digits_of (n div 10) @ [48 + n mod 10]"
      by (subst digits_of.simps) simp
    have "foldl (\<lambda>a d. 10 * a + (d - 48)) 0 (digits_of n) = 10 * (n div 10) + n mod 10"
      unfolding d using "1.IH" [OF False] by simp
    then show ?thesis by simp
  qed
qed

lemma digits_of_inj: "digits_of m = digits_of n \<Longrightarrow> m = n"
  by (metis digits_of_value)

lemma digits_of_digits: "d \<in> set (digits_of n) \<Longrightarrow> 48 \<le> d"
proof (induction n rule: digits_of.induct)
  case (1 n)
  show ?case
  proof (cases "n < 10")
    case True
    then have "digits_of n = [48 + n]"
      by (subst digits_of.simps) simp
    with "1.prems" show ?thesis by simp
  next
    case False
    then have "digits_of n = digits_of (n div 10) @ [48 + n mod 10]"
      by (subst digits_of.simps) simp
    with "1.prems" "1.IH" [OF False] show ?thesis by auto
  qed
qed

lemma digits_of_not_minus: "digits_of n \<noteq> 45 # ds"
proof
  assume "digits_of n = 45 # ds"
  then have "45 \<in> set (digits_of n)" by simp
  from digits_of_digits [OF this] show False by simp
qed

lemma number_to_string_inj: "number_to_string i = number_to_string j \<Longrightarrow> i = j"
proof (cases "i < 0"; cases "j < 0")
  assume "number_to_string i = number_to_string j" "i < 0" "j < 0"
  then have "nat (- i) = nat (- j)"
    by (auto simp: number_to_string_def dest: digits_of_inj)
  with \<open>i < 0\<close> \<open>j < 0\<close> show "i = j" by simp
next
  assume "number_to_string i = number_to_string j" "i < 0" "\<not> j < 0"
  then show "i = j"
    using digits_of_not_minus [of "nat j" "digits_of (nat (- i))"]
    by (simp add: number_to_string_def)
next
  assume "number_to_string i = number_to_string j" "\<not> i < 0" "j < 0"
  then show "i = j"
    using digits_of_not_minus [of "nat i" "digits_of (nat (- j))"]
    by (simp add: number_to_string_def)
next
  assume "number_to_string i = number_to_string j" "\<not> i < 0" "\<not> j < 0"
  then have "nat i = nat j"
    by (auto simp: number_to_string_def dest: digits_of_inj)
  with \<open>\<not> i < 0\<close> \<open>\<not> j < 0\<close> show "i = j" by simp
qed

lemma identity_key_eq_iff:
  "identity_key a = identity_key b \<longleftrightarrow>
     (if trim (w_id a) \<noteq> [] then trim (w_id a) = trim (w_id b)
      else trim (w_id b) = [] \<and> w_index a = w_index b)"
  by (auto simp: identity_key_def js_def dest: number_to_string_inj)

lemma map_set_same: "map_get m k = Some e \<Longrightarrow> map_set k e m = m"
  by (induction m) (auto simp: map_get_def split: if_splits)

lemma map_set_absent: "k \<notin> fst ` set m \<Longrightarrow> map_set k v m = m @ [(k, v)]"
  by (induction m) auto

lemma map_map_set_present:
  "distinct (map fst m) \<Longrightarrow> k \<in> fst ` set m \<Longrightarrow>
   map F (map_set k v m) = map (\<lambda>p. if fst p = k then F (k, v) else F p) m"
proof (induction m)
  case Nil
  then show ?case by simp
next
  case (Cons p m)
  show ?case
  proof (cases "fst p = k")
    case True
    with Cons.prems have "\<forall>q \<in> set m. fst q \<noteq> k"
      by (auto simp: image_iff)
    then have "map F m = map (\<lambda>p. if fst p = k then F (k, v) else F p) m"
      by (intro map_cong) auto
    with True show ?thesis by simp
  next
    case False
    with Cons show ?thesis by auto
  qed
qed

lemma kept_row_cases: "kept_row e c = e \<or> kept_row e c = c"
  by (simp add: kept_row_def)

lemma step_is_upsert:
  assumes "list_all (\<lambda>p. trimmed_name (snd p)) byKey"
  shows "fst (normalize_step m sessionName w (byKey, names))
           = upsert_row (resolved_row names (cacheKeyFor m sessionName w None) w) byKey"
proof (cases "map_get byKey (identity_key w)")
  case None
  then show ?thesis
    by (simp add: normalize_step_eq Let_def upsert_row_def identity_key_resolved)
next
  case (Some e)
  let ?c = "resolved_row names (cacheKeyFor m sessionName w None) w"
  from Some have "(identity_key w, e) \<in> set byKey"
    by (rule map_get_Some)
  with assms have t: "trim (w_name e) = w_name e"
    by (auto simp: list_all_iff trimmed_name_def)
  have a: "w_active ?c = w_active w"
    by (simp add: resolved_row_def)
  have same: "map_set (identity_key w) e byKey = byKey"
    using Some by (rule map_set_same)
  show ?thesis
    using Some same
    by (auto simp: normalize_step_eq Let_def upsert_row_def identity_key_resolved t a
        kept_row_def)
qed


lemma upsert_trimmed:
  assumes "list_all (\<lambda>p. trimmed_name (snd p)) m" "trimmed_name c"
  shows "list_all (\<lambda>p. trimmed_name (snd p)) (upsert_row c m)"
proof (cases "map_get m (identity_key c)")
  case None
  with assms list_all_map_set [of "\<lambda>p. trimmed_name (snd p)" m "identity_key c" c]
  show ?thesis by (simp add: upsert_row_def)
next
  case (Some e)
  then have "(identity_key c, e) \<in> set m"
    by (rule map_get_Some)
  with assms(1) have "trimmed_name e"
    by (auto simp: list_all_iff)
  with assms(2) kept_row_cases [of e c] have "trimmed_name (kept_row e c)"
    by auto
  with Some assms(1)
    list_all_map_set [of "\<lambda>p. trimmed_name (snd p)" m "identity_key c" "kept_row e c"]
  show ?thesis by (simp add: upsert_row_def)
qed

lemma resolved_row_trimmed:
  "list_all (\<lambda>p. trim (snd p) = snd p) names \<Longrightarrow> trimmed_name (resolved_row names ck w)"
  using resolved_name_trimmed [of names ck w] by (simp add: trimmed_name_def resolved_row_def)

lemma fold_is_upsert:
  assumes "list_all (\<lambda>p. trim (snd p) = snd p) names"
    and "list_all (\<lambda>p. trimmed_name (snd p)) byKey"
  shows "fst (fold (normalize_step m sessionName) ws (byKey, names))
           = fold upsert_row (candidates m sessionName names ws) byKey"
  using assms
proof (induction ws arbitrary: byKey names)
  case Nil
  show ?case by simp
next
  case (Cons w ws)
  let ?ck = "cacheKeyFor m sessionName w None"
  let ?c = "resolved_row names ?ck w"
  have s: "normalize_step m sessionName w (byKey, names)
             = (upsert_row ?c byKey, names_after names ?ck w)"
    using step_is_upsert [OF Cons.prems(2), of m sessionName w names]
    by (cases "normalize_step m sessionName w (byKey, names)")
      (simp add: normalize_step_eq Let_def)
  have n: "list_all (\<lambda>p. trim (snd p) = snd p) (names_after names ?ck w)"
    using Cons.prems(1) by (rule names_after_trimmed)
  have b: "list_all (\<lambda>p. trimmed_name (snd p)) (upsert_row ?c byKey)"
    using Cons.prems(2) resolved_row_trimmed [OF Cons.prems(1)] by (rule upsert_trimmed)
  from Cons.IH [OF n b] show ?case
    by (simp add: s)
qed

lemma upsert_keys: "fst ` set (upsert_row c m) = insert (identity_key c) (fst ` set m)"
  by (simp add: upsert_row_def set_map_set split: option.splits)

lemma upsert_distinct: "distinct (map fst m) \<Longrightarrow> distinct (map fst (upsert_row c m))"
  by (simp add: upsert_row_def distinct_map_set split: option.splits)

lemma fold_upsert_merge:
  assumes "distinct (map fst m)"
  shows "map snd (fold upsert_row cs m)
           = map (\<lambda>p. foldl kept_row (snd p) (filter (\<lambda>d. identity_key d = fst p) cs)) m
             @ merge_rows (filter (\<lambda>d. identity_key d \<notin> fst ` set m) cs)"
  using assms
proof (induction cs arbitrary: m)
  case Nil
  show ?case by simp
next
  case (Cons c cs)
  let ?k = "identity_key c"
  let ?G = "\<lambda>xs p. foldl kept_row (snd p) (filter (\<lambda>d. identity_key d = fst p) xs)"
  have d': "distinct (map fst (upsert_row c m))"
    using Cons.prems by (rule upsert_distinct)
  note IH = Cons.IH [OF d']
  show ?case
  proof (cases "map_get m ?k")
    case None
    then have absent: "?k \<notin> fst ` set m"
      by (simp add: map_get_None)
    then have u: "upsert_row c m = m @ [(?k, c)]"
      using None by (simp add: upsert_row_def map_set_absent)
    have g: "map (?G (c # cs)) m = map (?G cs) m"
      using absent by (intro map_cong) (auto simp: image_iff)
    have f1: "filter (\<lambda>d. identity_key d = ?k) (filter (\<lambda>d. identity_key d \<notin> fst ` set m) cs)
                = filter (\<lambda>d. identity_key d = ?k) cs"
      unfolding filter_filter using absent by (intro filter_cong) (force simp: image_iff)+
    have f2: "filter (\<lambda>d. identity_key d \<noteq> ?k) (filter (\<lambda>d. identity_key d \<notin> fst ` set m) cs)
                = filter (\<lambda>d. identity_key d \<notin> fst ` set (m @ [(?k, c)])) cs"
      unfolding filter_filter by (intro filter_cong) auto
    have hd: "filter (\<lambda>d. identity_key d \<notin> fst ` set m) (c # cs)
                = c # filter (\<lambda>d. identity_key d \<notin> fst ` set m) cs"
      using absent by simp
    have ms: "merge_rows (filter (\<lambda>d. identity_key d \<notin> fst ` set m) (c # cs))
                = foldl kept_row c (filter (\<lambda>d. identity_key d = ?k) cs)
                  # merge_rows (filter (\<lambda>d. identity_key d \<notin> fst ` set (m @ [(?k, c)])) cs)"
      by (simp only: hd merge_rows.simps f1 f2)
    have last: "map (?G cs) (m @ [(?k, c)])
                  = map (?G cs) m @ [foldl kept_row c (filter (\<lambda>d. identity_key d = ?k) cs)]"
      by simp
    have "map snd (fold upsert_row (c # cs) m)
            = map (?G cs) (m @ [(?k, c)])
              @ merge_rows (filter (\<lambda>d. identity_key d \<notin> fst ` set (m @ [(?k, c)])) cs)"
      using IH by (simp add: u)
    also have "\<dots> = map (?G (c # cs)) m
              @ merge_rows (filter (\<lambda>d. identity_key d \<notin> fst ` set m) (c # cs))"
      by (simp only: last ms g append_assoc append_Cons append_Nil)
    finally show ?thesis .
  next
    case (Some e)
    then have mem: "(?k, e) \<in> set m"
      by (rule map_get_Some)
    then have present: "?k \<in> fst ` set m"
      by (force simp: image_iff)
    have u: "upsert_row c m = map_set ?k (kept_row e c) m"
      using Some by (simp add: upsert_row_def)
    have keys: "fst ` set (upsert_row c m) = fst ` set m"
      using present by (auto simp: upsert_keys)
    have uniq: "snd p = e" if "p \<in> set m" "fst p = ?k" for p
      using Cons.prems mem that by (metis eq_key_imp_eq_value prod.collapse)
    have "map (?G cs) (upsert_row c m)
            = map (\<lambda>p. if fst p = ?k then ?G cs (?k, kept_row e c) else ?G cs p) m"
      unfolding u using Cons.prems present by (rule map_map_set_present)
    also have "\<dots> = map (?G (c # cs)) m"
      by (intro map_cong) (auto simp: uniq)
    finally have g: "map (?G cs) (upsert_row c m) = map (?G (c # cs)) m" .
    have hd: "filter (\<lambda>d. identity_key d \<notin> fst ` set m) (c # cs)
                = filter (\<lambda>d. identity_key d \<notin> fst ` set m) cs"
      using present by simp
    have "map snd (fold upsert_row (c # cs) m)
            = map (?G cs) (upsert_row c m)
              @ merge_rows (filter (\<lambda>d. identity_key d \<notin> fst ` set (upsert_row c m)) cs)"
      using IH by simp
    also have "\<dots> = map (?G (c # cs)) m
              @ merge_rows (filter (\<lambda>d. identity_key d \<notin> fst ` set m) (c # cs))"
      by (simp only: g keys hd)
    finally show ?thesis .
  qed
qed

lemma normalizeWindows_merge_rows:
  assumes "list_all (\<lambda>p. trim (snd p) = snd p) (nameCacheRef st)"
  shows "fst (normalizeWindows sessionName ws st)
           = sort_key w_index
               (merge_rows (candidates (mode st) sessionName (nameCacheRef st) ws))"
proof -
  have "fst (fold (normalize_step (mode st) sessionName) ws ([], nameCacheRef st))
          = fold upsert_row (candidates (mode st) sessionName (nameCacheRef st) ws) []"
    using assms by (intro fold_is_upsert) simp_all
  moreover have "map snd (fold upsert_row (candidates (mode st) sessionName (nameCacheRef st) ws) [])
          = merge_rows (candidates (mode st) sessionName (nameCacheRef st) ws)"
    using fold_upsert_merge [of "[]" "candidates (mode st) sessionName (nameCacheRef st) ws"]
    by simp
  ultimately show ?thesis
    by (simp add: normalizeWindows_def Let_def map_values_def)
qed

text \<open>
  C7. For every raw window list the result is sorted by index, holds exactly one row for
  each identity key of the list, and each of its rows is a row of the list with its id
  trimmed and its name resolved: a row whose trimmed name is empty takes the name cached
  for its key. A single row is kept so. Of two rows with one identity key, the one with
  the strictly longer resolved name is kept, and with names of equal length the second if
  it alone is marked active, the first otherwise. For a list of any length the result is
  the merge of the resolved rows, sorted by index: for each identity key the rows of that
  key are compared two by two in the order of the list by the same rule. The two
  statements on kept rows are for a name cache whose names are trimmed, as every writer of
  the cache leaves them. Two rows have one identity key when their trimmed ids are equal
  and not empty, or both trimmed ids are empty and the indices are equal.
\<close>

theorem normalizeWindows_merge:
  "sorted (map w_index (fst (normalizeWindows sessionName ws st)))
   \<and> distinct (map identity_key (fst (normalizeWindows sessionName ws st)))
   \<and> identity_key ` set (fst (normalizeWindows sessionName ws st)) = identity_key ` set ws
   \<and> set (fst (normalizeWindows sessionName ws st))
        \<subseteq> set (candidates (mode st) sessionName (nameCacheRef st) ws)
   \<and> fst (normalizeWindows sessionName [a] st)
        = [resolved_row (nameCacheRef st) (cacheKeyFor (mode st) sessionName a None) a]
   \<and> (identity_key a = identity_key b \<and> list_all (\<lambda>p. trim (snd p) = snd p) (nameCacheRef st)
        \<longrightarrow> fst (normalizeWindows sessionName [a, b] st)
          = [kept_row
               (resolved_row (nameCacheRef st) (cacheKeyFor (mode st) sessionName a None) a)
               (resolved_row
                  (names_after (nameCacheRef st) (cacheKeyFor (mode st) sessionName a None) a)
                  (cacheKeyFor (mode st) sessionName b None) b)])
   \<and> (identity_key a = identity_key b \<longleftrightarrow>
        (if trim (w_id a) \<noteq> [] then trim (w_id a) = trim (w_id b)
         else trim (w_id b) = [] \<and> w_index a = w_index b))
   \<and> (list_all (\<lambda>p. trim (snd p) = snd p) (nameCacheRef st)
        \<longrightarrow> fst (normalizeWindows sessionName ws st)
          = sort_key w_index
              (merge_rows (candidates (mode st) sessionName (nameCacheRef st) ws)))"
  using normalizeWindows_general [of sessionName ws st] normalizeWindows_one [of sessionName a st]
    normalizeWindows_two [of a b st sessionName] identity_key_eq_iff [of a b]
    normalizeWindows_merge_rows [of st sessionName ws]
  by blast

theorem normalizeWindows_merge_witness:
  "fst (normalizeWindows (js ''arc'')
         [row 0 (js ''@1'') [] False, row 0 (js ''@1'') (js ''shell'') False] initial)
     = [row 0 (js ''@1'') (js ''shell'') False]
   \<and> fst (normalizeWindows (js ''arc'')
         [row 2 (js ''@5'') (js ''vim'') False, row 2 (js ''@5'') (js ''vim'') True] initial)
     = [row 2 (js ''@5'') (js ''vim'') True]
   \<and> fst (normalizeWindows (js ''arc'') [row 0 (js ''@1'') (js '' '') False]
         (initial\<lparr>nameCacheRef := [(js ''local/arc/id:@1'', js ''shell'')]\<rparr>))
     = [row 0 (js ''@1'') (js ''shell'') False]
   \<and> fst (normalizeWindows (js ''arc'')
         [row 2 (js ''@2'') (js ''logs'') False, row 1 (js ''@1'') [] False,
          row 1 (js ''@1'') (js ''shell'') True] initial)
     = [row 1 (js ''@1'') (js ''shell'') True, row 2 (js ''@2'') (js ''logs'') False]"
proof -
  have t: "trim (js ''@1'') = js ''@1''" "trim (js ''@5'') = js ''@5''"
    "trim (js ''shell'') = js ''shell''" "trim (js ''vim'') = js ''vim''" "trim [] = []"
    by (simp_all add: trim_def js_def is_js_space_def)
  have n: "js ''@1'' \<noteq> []" "js ''@5'' \<noteq> []" "js ''shell'' \<noteq> []" "js ''vim'' \<noteq> []"
    by (simp_all add: js_def)
  have c: "list_all (\<lambda>p. trim (snd p) = snd p) (nameCacheRef initial)"
    by (simp add: initial_def)
  have k1: "identity_key (row 0 (js ''@1'') [] False)
              = identity_key (row 0 (js ''@1'') (js ''shell'') False)"
    by (simp add: identity_key_def row_def)
  have k2: "identity_key (row 2 (js ''@5'') (js ''vim'') False)
              = identity_key (row 2 (js ''@5'') (js ''vim'') True)"
    by (simp add: identity_key_def row_def)
  have l: "length (js ''shell'') = 5"
    by (simp add: js_def)
  from normalizeWindows_merge [of "js ''arc''" "[]" initial "row 0 (js ''@1'') [] False"
      "row 0 (js ''@1'') (js ''shell'') False"] k1 c
  have "fst (normalizeWindows (js ''arc'')
         [row 0 (js ''@1'') [] False, row 0 (js ''@1'') (js ''shell'') False] initial)
     = [row 0 (js ''@1'') (js ''shell'') False]"
    by (simp add: kept_row_def resolved_row_def resolved_name_def names_after_def row_def t n l
        map_get_def initial_def)
  moreover
  from normalizeWindows_merge [of "js ''arc''" "[]" initial "row 2 (js ''@5'') (js ''vim'') False"
      "row 2 (js ''@5'') (js ''vim'') True"] k2 c
  have "fst (normalizeWindows (js ''arc'')
         [row 2 (js ''@5'') (js ''vim'') False, row 2 (js ''@5'') (js ''vim'') True] initial)
     = [row 2 (js ''@5'') (js ''vim'') True]"
    by (simp add: kept_row_def resolved_row_def resolved_name_def names_after_def row_def t n
        map_get_def initial_def)
  moreover
  from normalizeWindows_merge [of "js ''arc''" "[]"
      "initial\<lparr>nameCacheRef := [(js ''local/arc/id:@1'', js ''shell'')]\<rparr>"
      "row 0 (js ''@1'') (js '' '') False" "row 0 (js ''@1'') (js '' '') False"]
  have "fst (normalizeWindows (js ''arc'') [row 0 (js ''@1'') (js '' '') False]
         (initial\<lparr>nameCacheRef := [(js ''local/arc/id:@1'', js ''shell'')]\<rparr>))
     = [row 0 (js ''@1'') (js ''shell'') False]"
    by (simp add: resolved_row_def resolved_name_def row_def map_get_def initial_def
        cacheKeyFor_def cacheScope_def buildWindowCacheKey_def normalizeId_def trim_def
        is_js_space_def js_def)
  moreover
  let ?ws = "[row 2 (js ''@2'') (js ''logs'') False, row 1 (js ''@1'') [] False,
              row 1 (js ''@1'') (js ''shell'') True]"
  from normalizeWindows_merge [of "js ''arc''" ?ws initial "row 0 [] [] False"
      "row 0 [] [] False"] c
  have "fst (normalizeWindows (js ''arc'') ?ws initial)
          = sort_key w_index
              (merge_rows (candidates (mode initial) (js ''arc'') (nameCacheRef initial) ?ws))"
    by blast
  then have "fst (normalizeWindows (js ''arc'') ?ws initial)
     = [row 1 (js ''@1'') (js ''shell'') True, row 2 (js ''@2'') (js ''logs'') False]"
    by (simp add: kept_row_def resolved_row_def resolved_name_def names_after_def row_def
        identity_key_def map_get_def initial_def cacheKeyFor_def cacheScope_def
        buildWindowCacheKey_def normalizeId_def trim_def is_js_space_def js_def)
  ultimately show ?thesis by blast
qed

section \<open>Properties of the session loader\<close>

lemma stale_windows_discarded:
  "token \<noteq> remoteSessionToken st \<Longrightarrow>
   selectSession_windows token sessionName profile result st = (st, None)"
  by (cases result)
    (simp_all add: selectSession_windows_def selectSession_catch_def selectSession_finally_def)

lemma stale_pane_error_discarded:
  "token \<noteq> remoteSessionToken st \<Longrightarrow>
   selectSession_pane token sessionName profile normalized preferred (Inl raw) st = st"
  by (simp add: selectSession_pane_def selectSession_catch_def selectSession_finally_def)

lemma stale_pane_written:
  "token \<noteq> remoteSessionToken st \<Longrightarrow>
   selectSession_pane token sessionName profile normalized preferred (Inr pane) st
     = st\<lparr>paneCacheRef :=
            map_set (cacheKeyFor (mode st) sessionName preferred (Some profile))
              (or_blank pane) (paneCacheRef st)\<rparr>"
  by (simp add: selectSession_pane_def selectSession_tail_def selectSession_finally_def)


lemmas demo_eval = demo_remote_def initial_def startControlSession_def stopControlSession_def
  resetControlQueues_def cloneProfile_def controlSessionKeyFor_def demo_profile_def
  port_or_22_def number_to_string_def digits_of.simps js_def map_values_def Let_def
  map_get_def cacheScope_def cacheKeyFor_def scopeKeyForProfile_def
  sessionCacheKeyForScope_def buildWindowCacheKey_def normalizeId_def trim_def
  is_js_space_def row_def

lemma demo_arc_fields:
  "snd (selectSession (js ''arc'') None demo_remote) = Some (1, demo_profile)"
  "remoteSessionToken demo_arc = 1" "mode demo_arc = RemoteMode demo_profile"
  "paneCacheRef demo_arc = []" "nameCacheRef demo_arc = []" "windowsCacheRef demo_arc = []"
  "activeSession demo_arc = Some (js ''arc'')"
  "controlRef demo_arc = Some (js ''arc'', demo_profile)"
  by (simp_all add: demo_arc_def selectSession_def demo_eval)

lemma demo_arc_windows_fields:
  "snd (selectSession_windows 1 (js ''arc'') demo_profile
            (Inr [row 0 (js ''@1'') (js ''shell'') True]) demo_arc)
     = Some ([row 0 (js ''@1'') (js ''shell'') True], row 0 (js ''@1'') (js ''shell'') True)"
  "remoteSessionToken demo_arc_windows = 1" "mode demo_arc_windows = RemoteMode demo_profile"
  "paneCacheRef demo_arc_windows = []"
  "activeSession demo_arc_windows = Some (js ''arc'')"
  "controlRef demo_arc_windows = Some (js ''arc'', demo_profile)"
  "windowsCacheRef demo_arc_windows
     = [(js ''remote:ops@node:22/arc'', [row 0 (js ''@1'') (js ''shell'') True])]"
  by (simp_all add: demo_arc_windows_def selectSession_windows_def demo_arc_fields
      normalizeWindows_def normalize_step_def preferred_window_def demo_eval)

lemma demo_build_fields:
  "snd (selectSession (js ''build'') None demo_arc_windows) = Some (2, demo_profile)"
  "remoteSessionToken demo_build = 2" "mode demo_build = RemoteMode demo_profile"
  "paneCacheRef demo_build = []"
  by (simp_all add: demo_build_def selectSession_def demo_arc_windows_fields demo_eval)

text \<open>
  C4. Session \<open>arc\<close> is selected in remote mode under token 1 and its window list
  arrives; its pane fetch is awaited when session \<open>build\<close> is selected, which moves the
  token to 2. When the pane text of \<open>arc\<close> then arrives, the continuation under token 1
  writes it to the pane cache before it tests the token: the pane cache, empty before,
  holds the stale text afterwards. Nothing else changes.
\<close>

theorem stale_pane_result_cached:
  "snd (selectSession (js ''arc'') None demo_remote) = Some (1, demo_profile)
   \<and> snd (selectSession_windows 1 (js ''arc'') demo_profile
            (Inr [row 0 (js ''@1'') (js ''shell'') True]) demo_arc)
       = Some ([row 0 (js ''@1'') (js ''shell'') True], row 0 (js ''@1'') (js ''shell'') True)
   \<and> snd (selectSession (js ''build'') None demo_arc_windows) = Some (2, demo_profile)
   \<and> remoteSessionToken demo_build = 2
   \<and> paneCacheRef demo_build = []
   \<and> selectSession_pane 1 (js ''arc'') demo_profile
        [row 0 (js ''@1'') (js ''shell'') True] (row 0 (js ''@1'') (js ''shell'') True)
        (Inr (js ''old text'')) demo_build
      = demo_build\<lparr>paneCacheRef := [(js ''remote:ops@node:22/arc/id:@1'', js ''old text'')]\<rparr>"
proof -
  have stale: "1 \<noteq> remoteSessionToken demo_build"
    by (simp add: demo_build_fields)
  have key: "cacheKeyFor (mode demo_build) (js ''arc'') (row 0 (js ''@1'') (js ''shell'') True)
               (Some demo_profile) = js ''remote:ops@node:22/arc/id:@1''"
    by (simp add: cacheKeyFor_def cacheScope_def scopeKeyForProfile_def buildWindowCacheKey_def
        normalizeId_def trim_def is_js_space_def port_or_22_def demo_profile_def
        number_to_string_def digits_of.simps row_def js_def)
  have blank: "or_blank (js ''old text'') = js ''old text''"
    by (simp add: or_blank_def js_def)
  have "selectSession_pane 1 (js ''arc'') demo_profile
        [row 0 (js ''@1'') (js ''shell'') True] (row 0 (js ''@1'') (js ''shell'') True)
        (Inr (js ''old text'')) demo_build
      = demo_build\<lparr>paneCacheRef := [(js ''remote:ops@node:22/arc/id:@1'', js ''old text'')]\<rparr>"
    unfolding stale_pane_written [OF stale] key blank demo_build_fields(4) by simp
  with demo_arc_fields(1) demo_arc_windows_fields(1) demo_build_fields(1,2,4)
  show ?thesis by blast
qed

end
